theory Spec2Isabelle
  imports Main "HOL-Library.AList"
begin

section \<open>JavaScript values\<close>

text \<open>
  The application is dynamically typed: \<open>AppState.mediaItems\<close> holds whatever
  \<open>init\<close> found in storage, and a media item is a plain object. Values are
  therefore a datatype of their own. An object is the list of its own properties in
  insertion order (keys are pairwise distinct in every object the program builds);
  numbers are integers, which covers the byte counts the program stores (\<open>NaN\<close>,
  infinities and fractions are left out). A string is a list of characters, each
  standing for one code unit, so \<open>length\<close> is the \<open>.length\<close> of the source.
\<close>

datatype jsval =
    JUndefined
  | JNull
  | JBool bool
  | JNum int
  | JStr string
  | JArr "jsval list"
  | JObj "(string \<times> jsval) list"

text \<open>
  What the source can throw. The two \<open>new Error(...)\<close> of \<open>MockBackendAPI\<close> are
  named after their messages: \<open>'Media item not found'\<close> is the NotFound of the
  design, \<open>'Storage quota exceeded or unavailable'\<close> its StorageUnavailable. The others
  are raised by the platform.
\<close>

datatype error =
    TypeError
  | SyntaxError
  | SecurityError
  | QuotaExceededError
  | Media_item_not_found
  | Storage_quota_exceeded_or_unavailable

text \<open>Truthiness, as \<open>||\<close>, \<open>!\<close> and \<open>? :\<close> test it.\<close>

fun truthy :: "jsval \<Rightarrow> bool" where
  "truthy JUndefined = False"
| "truthy JNull = False"
| "truthy (JBool b) = b"
| "truthy (JNum n) = (n \<noteq> 0)"
| "truthy (JStr s) = (s \<noteq> [])"
| "truthy (JArr xs) = True"
| "truthy (JObj ps) = True"

text \<open>
  Property read \<open>v.k\<close>. It throws on \<open>undefined\<close> and \<open>null\<close>; an object
  yields its own property or \<open>undefined\<close>. The program reads only the names
  \<open>mediaItems\<close>, \<open>id\<close>, \<open>fileName\<close>, \<open>description\<close>, \<open>fileType\<close> and
  \<open>fileSize\<close>, none of which an array, a string, a number or a boolean has, so
  those yield \<open>undefined\<close> (inherited properties and indices are left out).
\<close>

fun get_prop :: "jsval \<Rightarrow> string \<Rightarrow> error + jsval" where
  "get_prop JUndefined k = Inl TypeError"
| "get_prop JNull k = Inl TypeError"
| "get_prop (JObj ps) k = Inr (case map_of ps k of None \<Rightarrow> JUndefined | Some v \<Rightarrow> v)"
| "get_prop v k = Inr JUndefined"

text \<open>The same read on a value known to be an object (\<open>mediaData.fileName\<close>).\<close>

definition field :: "(string \<times> jsval) list \<Rightarrow> string \<Rightarrow> jsval" where
  "field ps k = (case map_of ps k of None \<Rightarrow> JUndefined | Some v \<Rightarrow> v)"

text \<open>
  Object spread \<open>{ ...a, ...b }\<close>: the own properties of \<open>a\<close>, then those of
  \<open>b\<close>, are set one by one on a fresh object. Setting an existing key replaces its value
  in place, setting a new key appends it.
\<close>

definition assign :: "(string \<times> jsval) list \<Rightarrow> (string \<times> jsval) list \<Rightarrow> (string \<times> jsval) list" where
  "assign target src = fold (\<lambda>p. AList.update (fst p) (snd p)) src target"

definition spread :: "(string \<times> jsval) list \<Rightarrow> (string \<times> jsval) list \<Rightarrow> (string \<times> jsval) list" where
  "spread a b = assign (assign [] a) b"

text \<open>
  The own properties a spread copies from a value. Line 256 spreads the element that
  \<open>findIndex\<close> matched, which has an own \<open>id\<close> and so is an object; the other cases
  are never reached from there (a string or an array would contribute its indices).
\<close>

fun own_props :: "jsval \<Rightarrow> (string \<times> jsval) list" where
  "own_props (JObj ps) = ps"
| "own_props v = []"

section \<open>JSON and localStorage\<close>

text \<open>
  \<open>JSON.stringify\<close>, \<open>JSON.parse\<close> and \<open>localStorage\<close> belong to the browser, not
  to the repository. The design fixes the snapshot format "independent of encoding",
  and the program never inspects a stored string other than by testing its truthiness
  and parsing it, so a stored string is modelled by what those two operations make of
  it: the empty string (falsy), a text that \<open>JSON.parse\<close> rejects, or a text that
  parses to a value.
\<close>

datatype stored_text =
    Empty_text
  | Malformed_text
  | Json_text jsval

text \<open>
  What survives serialisation: a property whose value is \<open>undefined\<close> is omitted from
  an object, an \<open>undefined\<close> array element becomes \<open>null\<close>.
\<close>

fun json_norm :: "jsval \<Rightarrow> jsval" where
  "json_norm JUndefined = JNull"
| "json_norm (JArr xs) = JArr (map json_norm xs)"
| "json_norm (JObj ps) =
     JObj (map (\<lambda>p. (fst p, json_norm (snd p))) (filter (\<lambda>p. snd p \<noteq> JUndefined) ps))"
| "json_norm v = v"

text \<open>
  \<open>JSON.stringify(undefined)\<close> is \<open>undefined\<close>, which \<open>setItem\<close> would store as the
  text \<open>undefined\<close>; every other value of this datatype gives a non-empty JSON text.
\<close>

fun JSON_stringify :: "jsval \<Rightarrow> stored_text" where
  "JSON_stringify JUndefined = Malformed_text"
| "JSON_stringify v = Json_text (json_norm v)"

fun JSON_parse :: "stored_text \<Rightarrow> error + jsval" where
  "JSON_parse (Json_text v) = Inr v"
| "JSON_parse t = Inl SyntaxError"

text \<open>
  The storage: its items, whether \<open>getItem\<close> and \<open>setItem\<close> throw (access denied,
  quota exceeded: the browser decides, so both are parameters of the state), and a log of
  the keys read, kept to tell which slots an operation consulted.
\<close>

record localStorage =
  items :: "string \<Rightarrow> stored_text option"
  getItem_throws :: "string \<Rightarrow> bool"
  setItem_throws :: "string \<Rightarrow> stored_text \<Rightarrow> bool"
  getItem_log :: "string list"

definition getItem :: "string \<Rightarrow> localStorage \<Rightarrow> (error + stored_text option) \<times> localStorage" where
  "getItem k s =
     (let s' = s\<lparr>getItem_log := getItem_log s @ [k]\<rparr>
      in if getItem_throws s k then (Inl SecurityError, s') else (Inr (items s k), s'))"

definition setItem :: "string \<Rightarrow> stored_text \<Rightarrow> localStorage \<Rightarrow> (error + unit) \<times> localStorage" where
  "setItem k t s =
     (if setItem_throws s k t then (Inl QuotaExceededError, s)
      else (Inr (), s\<lparr>items := (items s)(k \<mapsto> t)\<rparr>))"

section \<open>Application state\<close>

record AppState =
  mediaItems :: jsval
  currentEditId :: "string option"
  isLoading :: bool

text \<open>
  Everything an operation can change: \<open>AppState\<close>, the storage, and a log of the
  \<open>MockBackendAPI\<close> methods entered, kept to tell whether a handler reached the store.
\<close>

record world = AppState +
  storage :: localStorage
  api_log :: "string list"

text \<open>
  What an operation reads from the clock and the random generator:
  \<open>Date.now()\<close>, the digits \<open>Math.random().toString(36).substr(2)\<close>, and the two
  \<open>new Date().toISOString()\<close> of a mutating method.
\<close>

record env =
  Date_now :: nat
  random_digits :: string
  uploadDate_iso :: string
  lastUpdated_iso :: string

section \<open>Utils\<close>

definition digit36 :: "nat \<Rightarrow> char" where
  "digit36 d = ''0123456789abcdefghijklmnopqrstuvwxyz'' ! d"

fun toString36 :: "nat \<Rightarrow> string" where
  "toString36 n = (if n < 36 then [digit36 n] else toString36 (n div 36) @ [digit36 (n mod 36)])"

declare toString36.simps [simp del]

definition generateId :: "env \<Rightarrow> string" where
  "generateId e = toString36 (Date_now e) @ random_digits e"

definition startsWith :: "string \<Rightarrow> string \<Rightarrow> bool" where
  "startsWith s p = (take (length p) s = p)"

definition getFileType :: "string \<Rightarrow> string" where
  "getFileType mimeType =
     (if startsWith mimeType ''image/'' then ''image''
      else if startsWith mimeType ''video/'' then ''video''
      else if startsWith mimeType ''audio/'' then ''audio''
      else ''unknown'')"

record File =
  name :: string
  type :: string
  size' :: nat

definition validTypes :: "string list" where
  "validTypes =
     [''image/jpeg'', ''image/png'', ''image/gif'', ''image/webp'',
      ''video/mp4'', ''video/webm'', ''video/ogg'',
      ''audio/mp3'', ''audio/wav'', ''audio/ogg'', ''audio/mpeg'']"

definition isValidFileType :: "File \<Rightarrow> bool" where
  "isValidFileType file = (type file \<in> set validTypes)"

text \<open>
  \<open>String.prototype.trim\<close>: white space and line terminators are removed at both
  ends. Of these, the characters below 256 are tab, line feed, vertical tab, form feed,
  carriage return, space and no-break space.
\<close>

definition is_space :: "char \<Rightarrow> bool" where
  "is_space c = (of_char c \<in> {9, 10, 11, 12, 13, 32, 160 :: nat})"

definition trim :: "string \<Rightarrow> string" where
  "trim s = rev (dropWhile is_space (rev (dropWhile is_space s)))"

section \<open>MockBackendAPI\<close>

definition storageKey :: string where
  "storageKey = ''mediamix_hub_data''"

definition backupKey :: string where
  "backupKey = ''mediamix_hub_backup''"

definition default_data :: jsval where
  "default_data = JObj [(''mediaItems'', JArr []), (''version'', JStr ''1.0'')]"

text \<open>
  The body of each \<open>try\<close> of \<open>loadFromStorage\<close>:
  \<open>const data = localStorage.getItem(key); return data ? JSON.parse(data) : {...}\<close>.
  \<open>null\<close> and the empty string are falsy.
\<close>

definition read_slot :: "string \<Rightarrow> localStorage \<Rightarrow> (error + jsval) \<times> localStorage" where
  "read_slot k s =
     (case getItem k s of
        (Inl e, s') \<Rightarrow> (Inl e, s')
      | (Inr None, s') \<Rightarrow> (Inr default_data, s')
      | (Inr (Some t), s') \<Rightarrow> (if t = Empty_text then Inr default_data else JSON_parse t, s'))"

definition loadFromStorage :: "localStorage \<Rightarrow> jsval \<times> localStorage" where
  "loadFromStorage s =
     (case read_slot storageKey s of
        (Inr data, s1) \<Rightarrow> (data, s1)
      | (Inl error, s1) \<Rightarrow>
          (case read_slot backupKey s1 of
             (Inr backup, s2) \<Rightarrow> (backup, s2)
           | (Inl backupError, s2) \<Rightarrow> (default_data, s2)))"

text \<open>
  \<open>init\<close>: \<open>data.mediaItems\<close> throws when the parsed data is \<open>null\<close>; the
  \<open>catch\<close> then sets the empty array. Nothing after the assignment can throw.
\<close>

definition init :: "world \<Rightarrow> (error + unit) \<times> world" where
  "init w =
     (case loadFromStorage (storage w) of
        (data, s) \<Rightarrow>
          (case get_prop data ''mediaItems'' of
             Inr v \<Rightarrow> (Inr (), w\<lparr>mediaItems := (if truthy v then v else JArr []), storage := s\<rparr>)
           | Inl error \<Rightarrow> (Inr (), w\<lparr>mediaItems := JArr [], storage := s\<rparr>)))"

definition saveToStorage :: "jsval \<Rightarrow> localStorage \<Rightarrow> (error + unit) \<times> localStorage" where
  "saveToStorage data s =
     (let dataString = JSON_stringify data in
      case setItem storageKey dataString s of
        (Inl error, s1) \<Rightarrow> (Inl Storage_quota_exceeded_or_unavailable, s1)
      | (Inr _, s1) \<Rightarrow>
          (case setItem backupKey dataString s1 of
             (Inl error, s2) \<Rightarrow> (Inl Storage_quota_exceeded_or_unavailable, s2)
           | (Inr _, s2) \<Rightarrow> (Inr (), s2)))"

text \<open>The object literal that all three mutating methods pass to \<open>saveToStorage\<close>.\<close>

definition snapshot :: "jsval \<Rightarrow> env \<Rightarrow> jsval" where
  "snapshot catalog e =
     JObj [(''mediaItems'', catalog),
           (''lastUpdated'', JStr (lastUpdated_iso e)),
           (''version'', JStr ''1.0'')]"

text \<open>
  Each method is modelled from the point where its timer has fired: from there on it
  runs without suspending. A method that throws still returns the world it leaves
  behind.
\<close>

text \<open>The object literal of lines 212 to 219.\<close>

definition new_mediaItem :: "(string \<times> jsval) list \<Rightarrow> env \<Rightarrow> jsval" where
  "new_mediaItem mediaData e =
     JObj [(''id'', JStr (generateId e)),
           (''fileName'', field mediaData ''fileName''),
           (''description'', field mediaData ''description''),
           (''uploadDate'', JStr (uploadDate_iso e)),
           (''fileType'', field mediaData ''fileType''),
           (''fileSize'', field mediaData ''fileSize'')]"

definition createMedia :: "(string \<times> jsval) list \<Rightarrow> env \<Rightarrow> world \<Rightarrow> (error + jsval) \<times> world" where
  "createMedia mediaData e w0 =
     (let w = w0\<lparr>api_log := api_log w0 @ [''createMedia'']\<rparr>;
          mediaItem = new_mediaItem mediaData e
      in case mediaItems w of
           JArr xs \<Rightarrow>
             (let w1 = w\<lparr>mediaItems := JArr (xs @ [mediaItem])\<rparr> in
              case saveToStorage (snapshot (mediaItems w1) e) (storage w1) of
                (Inl err, s) \<Rightarrow> (Inl err, w1\<lparr>storage := s\<rparr>)
              | (Inr _, s) \<Rightarrow> (Inr mediaItem, w1\<lparr>storage := s\<rparr>))
         | _ \<Rightarrow> (Inl TypeError, w))"

text \<open>\<open>[...AppState.mediaItems]\<close>: an array is copied, a string yields its characters,
  anything else is not iterable.\<close>

definition getMedia :: "world \<Rightarrow> (error + jsval list) \<times> world" where
  "getMedia w0 =
     (let w = w0\<lparr>api_log := api_log w0 @ [''getMedia'']\<rparr>
      in case mediaItems w of
           JArr xs \<Rightarrow> (Inr xs, w)
         | JStr s \<Rightarrow> (Inr (map (\<lambda>c. JStr [c]) s), w)
         | _ \<Rightarrow> (Inl TypeError, w))"

text \<open>
  \<open>findIndex(item => item.id === id)\<close> with \<open>id\<close> a string: strict equality with a
  string holds exactly for the same string. \<open>None\<close> is the \<open>-1\<close> of the source; the
  callback throws on a \<open>null\<close> element.
\<close>

fun findIndex :: "string \<Rightarrow> jsval list \<Rightarrow> error + nat option" where
  "findIndex id' [] = Inr None"
| "findIndex id' (item # rest) =
     (case get_prop item ''id'' of
        Inl e \<Rightarrow> Inl e
      | Inr v \<Rightarrow>
          if v = JStr id' then Inr (Some 0)
          else (case findIndex id' rest of
                  Inr (Some i) \<Rightarrow> Inr (Some (Suc i))
                | r \<Rightarrow> r))"

definition updateMedia :: "string \<Rightarrow> (string \<times> jsval) list \<Rightarrow> env \<Rightarrow> world \<Rightarrow> (error + jsval) \<times> world" where
  "updateMedia id' updates e w0 =
     (let w = w0\<lparr>api_log := api_log w0 @ [''updateMedia'']\<rparr>
      in case mediaItems w of
           JArr xs \<Rightarrow>
             (case findIndex id' xs of
                Inl err \<Rightarrow> (Inl err, w)
              | Inr None \<Rightarrow> (Inl Media_item_not_found, w)
              | Inr (Some index) \<Rightarrow>
                  (let updated = JObj (spread (own_props (xs ! index)) updates);
                       w1 = w\<lparr>mediaItems := JArr (xs[index := updated])\<rparr>
                   in case saveToStorage (snapshot (mediaItems w1) e) (storage w1) of
                        (Inl err, s) \<Rightarrow> (Inl err, w1\<lparr>storage := s\<rparr>)
                      | (Inr _, s) \<Rightarrow> (Inr updated, w1\<lparr>storage := s\<rparr>)))
         | _ \<Rightarrow> (Inl TypeError, w))"

definition deleteMedia :: "string \<Rightarrow> env \<Rightarrow> world \<Rightarrow> (error + unit) \<times> world" where
  "deleteMedia id' e w0 =
     (let w = w0\<lparr>api_log := api_log w0 @ [''deleteMedia'']\<rparr>
      in case mediaItems w of
           JArr xs \<Rightarrow>
             (case findIndex id' xs of
                Inl err \<Rightarrow> (Inl err, w)
              | Inr None \<Rightarrow> (Inl Media_item_not_found, w)
              | Inr (Some index) \<Rightarrow>
                  (let w1 = w\<lparr>mediaItems := JArr (take index xs @ drop (Suc index) xs)\<rparr>
                   in case saveToStorage (snapshot (mediaItems w1) e) (storage w1) of
                        (Inl err, s) \<Rightarrow> (Inl err, w1\<lparr>storage := s\<rparr>)
                      | (Inr _, s) \<Rightarrow> (Inr (), w1\<lparr>storage := s\<rparr>)))
         | _ \<Rightarrow> (Inl TypeError, w))"

section \<open>Gallery controller\<close>

text \<open>
  The handlers read the form through the DOM; here the selected file and the text of
  the input are arguments. Of what they do to the page only the calls of
  \<open>Utils.showMessage\<close> are kept, in order. A handler that returns at once shows
  nothing.
\<close>

datatype message = Error_message string | Success_message string

definition setLoadingState :: "bool \<Rightarrow> world \<Rightarrow> world" where
  "setLoadingState loading w = w\<lparr>isLoading := loading\<rparr>"

definition closeEditModal :: "world \<Rightarrow> world" where
  "closeEditModal w = w\<lparr>currentEditId := None\<rparr>"

text \<open>
  \<open>renderGallery\<close> catches what \<open>getMedia\<close> throws, and what
  \<open>createMediaCard\<close> throws when it reads \<open>item.fileType\<close> of a \<open>null\<close> element.
\<close>

definition renderGallery :: "world \<Rightarrow> message list \<times> world" where
  "renderGallery w =
     (case getMedia w of
        (Inl error, w') \<Rightarrow> ([Error_message ''Failed to load media gallery.''], w')
      | (Inr items', w') \<Rightarrow>
          if list_ex (\<lambda>item. isl (get_prop item ''fileType'')) items'
          then ([Error_message ''Failed to load media gallery.''], w')
          else ([], w'))"

text \<open>
  \<open>handleUpload\<close>. The success message interpolates \<open>newItem.fileName\<close>, which is the
  \<open>file.name\<close> just passed to \<open>createMedia\<close>.
\<close>

definition handleUpload :: "File option \<Rightarrow> string \<Rightarrow> env \<Rightarrow> world \<Rightarrow> message list \<times> world" where
  "handleUpload file descriptionInput e w =
     (if isLoading w then ([], w)
      else
        let description = trim descriptionInput in
        case file of
          None \<Rightarrow> ([Error_message ''Please select a file to upload.''], w)
        | Some f \<Rightarrow>
            if \<not> isValidFileType f
            then ([Error_message ''Invalid file type. Please select an image, video, or audio file.''], w)
            else if description = []
            then ([Error_message ''Please enter a description for your media.''], w)
            else if length description > 500
            then ([Error_message ''Description must be 500 characters or less.''], w)
            else
              let mediaData = [(''fileName'', JStr (name f)),
                               (''description'', JStr description),
                               (''fileType'', JStr (getFileType (type f))),
                               (''fileSize'', JNum (int (size' f)))]
              in (case createMedia mediaData e (setLoadingState True w) of
                    (Inl error, w1) \<Rightarrow>
                      ([Error_message ''Upload failed. Please try again.''], setLoadingState False w1)
                  | (Inr newItem, w1) \<Rightarrow>
                      (case renderGallery w1 of
                         (shown, w2) \<Rightarrow>
                           (shown @ [Success_message (''Successfully uploaded '' @ name f @ ''!'')],
                            setLoadingState False w2))))"

text \<open>\<open>handleSaveEdit\<close>. \<open>!AppState.currentEditId\<close> holds for \<open>null\<close> and for the
  empty string.\<close>

definition handleSaveEdit :: "string \<Rightarrow> env \<Rightarrow> world \<Rightarrow> message list \<times> world" where
  "handleSaveEdit editDescriptionInput e w =
     (case currentEditId w of
        None \<Rightarrow> ([], w)
      | Some editId \<Rightarrow>
          if editId = [] then ([], w)
          else
            let newDescription = trim editDescriptionInput in
            if newDescription = []
            then ([Error_message ''Description cannot be empty.''], w)
            else if length newDescription > 500
            then ([Error_message ''Description must be 500 characters or less.''], w)
            else
              (case updateMedia editId [(''description'', JStr newDescription)] e w of
                 (Inl error, w1) \<Rightarrow>
                   ([Error_message ''Failed to update description. Please try again.''], w1)
               | (Inr updated, w1) \<Rightarrow>
                   (case renderGallery (closeEditModal w1) of
                      (shown, w2) \<Rightarrow>
                        (shown @ [Success_message ''Description updated successfully!''], w2))))"

section \<open>Catalogs\<close>

text \<open>
  A record of the catalog is an object; its keys are pairwise distinct, as the keys of
  an object are. \<open>has_id\<close> is the test \<open>item.id === id\<close> of the source.
\<close>

fun is_object :: "jsval \<Rightarrow> bool" where
  "is_object (JObj ps) = distinct (map fst ps)"
| "is_object v = False"

definition has_id :: "string \<Rightarrow> jsval \<Rightarrow> bool" where
  "has_id id' item = (get_prop item ''id'' = Inr (JStr id'))"

fun is_array :: "jsval \<Rightarrow> bool" where
  "is_array (JArr xs) = True"
| "is_array v = False"

text \<open>The \<open>id\<close> fields of the records of a catalog, in order. The design's
  invariant is that they are pairwise distinct.\<close>

definition ids :: "jsval list \<Rightarrow> jsval list" where
  "ids xs = map (\<lambda>x. field (own_props x) ''id'') xs"

text \<open>The position \<open>findIndex\<close> returns for an id that is present: that of the first
  record with this id.\<close>

definition first_index :: "string \<Rightarrow> jsval list \<Rightarrow> nat" where
  "first_index id' xs = length (takeWhile (\<lambda>x. \<not> has_id id' x) xs)"

text \<open>A value that serialisation leaves as it is: no \<open>undefined\<close> inside.\<close>

fun json_safe :: "jsval \<Rightarrow> bool" where
  "json_safe JUndefined = False"
| "json_safe (JArr xs) = list_all json_safe xs"
| "json_safe (JObj ps) = (distinct (map fst ps) \<and> list_all (\<lambda>p. json_safe (snd p)) ps)"
| "json_safe v = True"

text \<open>A media record as the store holds it: each field is absent (\<open>undefined\<close>, as an
  optional \<open>fileSize\<close> is) or a value without \<open>undefined\<close> inside.\<close>

fun is_record :: "jsval \<Rightarrow> bool" where
  "is_record (JObj ps) =
     (distinct (map fst ps) \<and> list_all (\<lambda>p. snd p = JUndefined \<or> json_safe (snd p)) ps)"
| "is_record v = False"

section \<open>Outcome of the persistence write\<close>

text \<open>
  Whether saving \<open>data\<close> to the storage \<open>s\<close> meets a write that throws, and
  whether both slots of \<open>s\<close> hold the text of \<open>data\<close>.
\<close>

definition write_fails :: "localStorage \<Rightarrow> jsval \<Rightarrow> bool" where
  "write_fails s data =
     (setItem_throws s storageKey (JSON_stringify data) \<or>
      setItem_throws s backupKey (JSON_stringify data))"

definition persisted :: "localStorage \<Rightarrow> jsval \<Rightarrow> bool" where
  "persisted s data =
     (items s storageKey = Some (JSON_stringify data) \<and>
      items s backupKey = Some (JSON_stringify data))"

text \<open>Whether the first \<open>try\<close> of \<open>loadFromStorage\<close> throws: \<open>getItem\<close> throws
  on the primary key, or the primary slot holds a non-empty text that \<open>JSON.parse\<close>
  rejects.\<close>

definition primary_fails :: "localStorage \<Rightarrow> bool" where
  "primary_fails s = (getItem_throws s storageKey \<or> items s storageKey = Some Malformed_text)"

text \<open>A parsed value from which \<open>init\<close> takes a list or nothing: its
  \<open>mediaItems\<close> is an array, or is falsy or missing, or the value is \<open>null\<close>.
  Every snapshot that \<open>saveToStorage\<close> is given by the mutating methods is of this
  kind when the catalog is an array.\<close>

definition list_or_nothing :: "jsval \<Rightarrow> bool" where
  "list_or_nothing v =
     (case get_prop v ''mediaItems'' of
        Inl e \<Rightarrow> True
      | Inr m \<Rightarrow> is_array m \<or> \<not> truthy m)"

section \<open>Sample states\<close>

text \<open>Concrete storages, worlds and inputs at which the theorems below are evaluated.\<close>

definition empty_storage :: localStorage where
  "empty_storage =
     \<lparr>items = (\<lambda>k. None), getItem_throws = (\<lambda>k. False),
      setItem_throws = (\<lambda>k t. False), getItem_log = []\<rparr>"

text \<open>A storage whose quota is reached by the second write of a save: writing the
  primary slot succeeds, writing the backup slot throws.\<close>

definition backup_full_storage :: localStorage where
  "backup_full_storage = empty_storage\<lparr>setItem_throws := (\<lambda>k t. k = backupKey)\<rparr>"

text \<open>A storage on which every write throws.\<close>

definition full_storage :: localStorage where
  "full_storage = empty_storage\<lparr>setItem_throws := (\<lambda>k t. True)\<rparr>"

definition fresh_world :: world where
  "fresh_world =
     \<lparr>mediaItems = JArr [], currentEditId = None, isLoading = False,
      storage = empty_storage, api_log = []\<rparr>"

definition sample_env :: env where
  "sample_env =
     \<lparr>Date_now = 1762100000000, random_digits = ''k3x9q2m1'',
      uploadDate_iso = ''2026-11-02T16:13:20.000Z'',
      lastUpdated_iso = ''2026-11-02T16:13:20.001Z''\<rparr>"

definition full_world :: world where
  "full_world = fresh_world\<lparr>storage := full_storage\<rparr>"

definition cat_photo :: "(string \<times> jsval) list" where
  "cat_photo =
     [(''fileName'', JStr ''a.png''), (''description'', JStr ''cat photo''),
      (''fileType'', JStr ''image''), (''fileSize'', JNum 2048)]"

text \<open>A catalog of one record, created from \<open>cat_photo\<close>, over an empty storage and
  over one on which every write throws.\<close>

definition cat_record :: jsval where
  "cat_record = new_mediaItem cat_photo sample_env"

definition cat_id :: string where
  "cat_id = generateId sample_env"

definition cat_world :: world where
  "cat_world = fresh_world\<lparr>mediaItems := JArr [cat_record]\<rparr>"

definition cat_world_full :: world where
  "cat_world_full = full_world\<lparr>mediaItems := JArr [cat_record]\<rparr>"

text \<open>A second upload, a minute later, of a file whose size is not given: the record
  holds \<open>undefined\<close> as its \<open>fileSize\<close>.\<close>

definition later_env :: env where
  "later_env =
     \<lparr>Date_now = 1762100060000, random_digits = ''7w0zr4tb'',
      uploadDate_iso = ''2026-11-02T16:14:20.000Z'',
      lastUpdated_iso = ''2026-11-02T16:14:20.001Z''\<rparr>"

definition voice_memo :: "(string \<times> jsval) list" where
  "voice_memo =
     [(''fileName'', JStr ''memo.mp3''), (''description'', JStr ''voice memo''),
      (''fileType'', JStr ''audio'')]"

definition memo_record :: jsval where
  "memo_record = new_mediaItem voice_memo later_env"

text \<open>A selected file, a world in which the one record is open in the edit modal, and
  two texts for the description input: a space followed by 500 letters, and 501
  letters.\<close>

definition photo_file :: File where
  "photo_file = \<lparr>name = ''a.png'', type = ''image/png'', size' = 2048\<rparr>"

definition editing_world :: world where
  "editing_world = cat_world\<lparr>currentEditId := Some cat_id\<rparr>"

definition padded_500 :: string where
  "padded_500 = CHR '' '' # replicate 500 (CHR ''a'')"

definition letters_501 :: string where
  "letters_501 = replicate 501 (CHR ''a'')"

text \<open>A catalog of the two sample records, whose ids differ, and the world the store
  is in after \<open>updateMedia\<close> has been asked to set the \<open>id\<close> of the second record to
  the id of the first.\<close>

definition memo_id :: string where
  "memo_id = generateId later_env"

definition two_record_world :: world where
  "two_record_world = fresh_world\<lparr>mediaItems := JArr [cat_record, memo_record]\<rparr>"

definition renamed_memo :: jsval where
  "renamed_memo = JObj (spread (own_props memo_record) [(''id'', JStr cat_id)])"

definition duplicate_id_world :: world where
  "duplicate_id_world =
     snd (updateMedia memo_id [(''id'', JStr cat_id)] later_env two_record_world)"

text \<open>Storages for \<open>init\<close>. In the first the primary slot is absent and the backup
  slot holds the snapshot of the one-record catalog; in the second the primary slot holds
  a text that does not parse, over the same backup; in the third the primary slot holds
  well-formed JSON whose \<open>mediaItems\<close> is the number 5.\<close>

definition backup_only_storage :: localStorage where
  "backup_only_storage =
     empty_storage\<lparr>items :=
       (\<lambda>k. if k = backupKey then Some (JSON_stringify (snapshot (JArr [cat_record]) sample_env))
            else None)\<rparr>"

definition backup_only_world :: world where
  "backup_only_world = fresh_world\<lparr>storage := backup_only_storage\<rparr>"

definition corrupt_primary_world :: world where
  "corrupt_primary_world =
     fresh_world\<lparr>storage :=
       backup_only_storage\<lparr>items := (items backup_only_storage)(storageKey \<mapsto> Malformed_text)\<rparr>\<rparr>"

definition misshapen_world :: world where
  "misshapen_world =
     fresh_world\<lparr>storage :=
       empty_storage\<lparr>items :=
         (\<lambda>k. if k = storageKey then Some (Json_text (JObj [(''mediaItems'', JNum 5)]))
              else None)\<rparr>\<rparr>"

section \<open>Objects and the search by id\<close>

lemma get_prop_object: "is_object x \<Longrightarrow> get_prop x k = Inr (field (own_props x) k)"
  by (cases x) (simp_all add: field_def)

lemma findIndex_objects:
  "list_all is_object xs \<Longrightarrow>
   findIndex i xs = Inr (if list_ex (has_id i) xs then Some (first_index i xs) else None)"
proof (induction xs)
  case Nil
  show ?case by (simp add: first_index_def)
next
  case (Cons x xs)
  then obtain ps where x: "x = JObj ps" by (cases x) simp_all
  from Cons have IH: "findIndex i xs = Inr (if list_ex (has_id i) xs then Some (first_index i xs) else None)"
    by simp
  have h: "has_id i x \<longleftrightarrow> (case map_of ps ''id'' of None \<Rightarrow> JUndefined | Some v \<Rightarrow> v) = JStr i"
    by (simp add: x has_id_def)
  show ?case
    using h by (simp add: x IH first_index_def)
qed

text \<open>On any array, the element \<open>findIndex\<close> matches is an object with the id: the
  spread of line 256 never meets another kind of value.\<close>

lemma findIndex_Some_object:
  "findIndex i xs = Inr (Some k) \<Longrightarrow> k < length xs \<and> (\<exists>ps. xs ! k = JObj ps) \<and> has_id i (xs ! k)"
proof (induction xs arbitrary: k)
  case Nil
  then show ?case by simp
next
  case (Cons x xs)
  show ?case
  proof (cases "has_id i x")
    case True
    then have "\<exists>ps. x = JObj ps" by (cases x) (simp_all add: has_id_def)
    moreover from True Cons.prems have "k = 0"
      by (simp add: has_id_def)
    ultimately show ?thesis using True by simp
  next
    case False
    with Cons.prems obtain j where j: "findIndex i xs = Inr (Some j)" "k = Suc j"
      by (auto simp add: has_id_def split: sum.splits option.splits if_splits)
    from Cons.IH[OF j(1)] j(2) show ?thesis by simp
  qed
qed

lemma first_index_less: "list_ex (has_id i) xs \<Longrightarrow> first_index i xs < length xs"
  by (induction xs) (auto simp add: first_index_def)

lemma first_index_has_id: "list_ex (has_id i) xs \<Longrightarrow> has_id i (xs ! first_index i xs)"
  by (induction xs) (auto simp add: first_index_def)

lemma update_fresh: "k \<notin> fst ` set t \<Longrightarrow> AList.update k v t = t @ [(k, v)]"
  by (induction t) auto

lemma assign_fresh: "distinct (map fst (t @ a)) \<Longrightarrow> assign t a = t @ a"
proof (induction a arbitrary: t)
  case Nil
  show ?case by (simp add: assign_def)
next
  case (Cons p a)
  have "AList.update (fst p) (snd p) t = t @ [p]"
    using Cons.prems by (simp add: update_fresh)
  moreover have "assign (t @ [p]) a = (t @ [p]) @ a"
    using Cons.prems by (intro Cons.IH) auto
  ultimately show ?case by (simp add: assign_def)
qed

lemma assign_Nil_distinct: "distinct (map fst a) \<Longrightarrow> assign [] a = a"
  using assign_fresh[of "[]" a] by simp

lemma map_of_assign:
  "distinct (map fst b) \<Longrightarrow> map_of (assign t b) = map_of t ++ map_of b"
proof (induction b arbitrary: t)
  case Nil
  show ?case by (simp add: assign_def)
next
  case (Cons p b)
  have "map_of (assign (AList.update (fst p) (snd p) t) b)
          = map_of (AList.update (fst p) (snd p) t) ++ map_of b"
    using Cons.prems by (intro Cons.IH) simp
  moreover have "fst p \<notin> dom (map_of b)"
    using Cons.prems by (simp add: dom_map_of_conv_image_fst)
  ultimately show ?case
    by (cases p) (auto simp add: assign_def update_conv' fun_eq_iff map_add_def split: option.splits)
qed

lemma distinct_assign: "distinct (map fst t) \<Longrightarrow> distinct (map fst (assign t b))"
  by (induction b arbitrary: t) (simp_all add: assign_def distinct_update)

lemma field_spread:
  "distinct (map fst a) \<Longrightarrow> distinct (map fst b) \<Longrightarrow>
   field (spread a b) k = (case map_of b k of None \<Rightarrow> field a k | Some v \<Rightarrow> v)"
  by (simp add: spread_def field_def map_of_assign assign_Nil_distinct map_add_def split: option.splits)

section \<open>The persistence write\<close>

text \<open>\<open>saveToStorage\<close> in closed form: the three ways through its \<open>try\<close>.\<close>

lemma saveToStorage_eq:
  "saveToStorage data s =
     (let t = JSON_stringify data in
      if setItem_throws s storageKey t then (Inl Storage_quota_exceeded_or_unavailable, s)
      else if setItem_throws s backupKey t
      then (Inl Storage_quota_exceeded_or_unavailable, s\<lparr>items := (items s)(storageKey \<mapsto> t)\<rparr>)
      else (Inr (), s\<lparr>items := (items s)(storageKey \<mapsto> t, backupKey \<mapsto> t)\<rparr>))"
  by (simp add: saveToStorage_def setItem_def Let_def)

lemma saveToStorage_fst:
  "fst (saveToStorage data s) =
     (if write_fails s data then Inl Storage_quota_exceeded_or_unavailable else Inr ())"
  by (simp add: saveToStorage_eq write_fails_def Let_def)

lemma saveToStorage_persisted:
  "\<not> write_fails s data \<Longrightarrow> persisted (snd (saveToStorage data s)) data"
  by (simp add: saveToStorage_eq write_fails_def persisted_def Let_def)

lemma save_case:
  "(case saveToStorage d s of (Inl err, s') \<Rightarrow> F err s' | (Inr u, s') \<Rightarrow> G s') =
     (if write_fails s d then F Storage_quota_exceeded_or_unavailable (snd (saveToStorage d s))
      else G (snd (saveToStorage d s)))"
  by (simp add: saveToStorage_eq write_fails_def Let_def)

text \<open>
  C2, as the specification states it, fails: "if at least one of the two slot writes
  succeeds, the operation does not raise StorageUnavailable". On a storage whose quota
  is reached by the second write, the primary slot is written, and \<open>saveToStorage\<close>
  still throws \<open>'Storage quota exceeded or unavailable'\<close>: both writes sit in one
  \<open>try\<close>.
\<close>

theorem saveToStorage_one_write_succeeds_counterexample:
  "\<not> setItem_throws backup_full_storage storageKey (JSON_stringify (snapshot (JArr []) sample_env)) \<and>
   items (snd (saveToStorage (snapshot (JArr []) sample_env) backup_full_storage)) storageKey
     = Some (JSON_stringify (snapshot (JArr []) sample_env)) \<and>
   fst (saveToStorage (snapshot (JArr []) sample_env) backup_full_storage)
     = Inl Storage_quota_exceeded_or_unavailable"
  by (simp add: saveToStorage_eq Let_def backup_full_storage_def empty_storage_def
      storageKey_def backupKey_def)

text \<open>
  C2, amended: the persistence write raises StorageUnavailable exactly when the write of
  the primary slot or the write of the backup slot fails, and returns normally exactly
  when both succeed.
\<close>

theorem saveToStorage_raises_iff_a_write_fails:
  "(fst (saveToStorage data s) = Inl Storage_quota_exceeded_or_unavailable \<longleftrightarrow>
      setItem_throws s storageKey (JSON_stringify data) \<or>
      setItem_throws s backupKey (JSON_stringify data)) \<and>
   (fst (saveToStorage data s) = Inr () \<longleftrightarrow>
      \<not> setItem_throws s storageKey (JSON_stringify data) \<and>
      \<not> setItem_throws s backupKey (JSON_stringify data))"
  by (simp add: saveToStorage_eq Let_def)

section \<open>The mutating methods in closed form\<close>

text \<open>On a catalog that is an array of objects, each method is one equation: the
  catalog it leaves, and what it returns or throws.\<close>

lemma createMedia_eq:
  assumes "mediaItems w = JArr xs"
  shows "createMedia md e w =
     (let ys = xs @ [new_mediaItem md e];
          r = saveToStorage (snapshot (JArr ys) e) (storage w)
      in (if write_fails (storage w) (snapshot (JArr ys) e)
          then Inl Storage_quota_exceeded_or_unavailable else Inr (new_mediaItem md e),
          w\<lparr>mediaItems := JArr ys, api_log := api_log w @ [''createMedia''], storage := snd r\<rparr>))"
  using assms by (simp add: createMedia_def Let_def save_case)

lemma updateMedia_eq:
  assumes "mediaItems w = JArr xs" and "list_all is_object xs"
  shows "updateMedia i u e w =
     (if list_ex (has_id i) xs
      then let k = first_index i xs;
               updated = JObj (spread (own_props (xs ! k)) u);
               ys = xs[k := updated];
               r = saveToStorage (snapshot (JArr ys) e) (storage w)
           in (if write_fails (storage w) (snapshot (JArr ys) e)
               then Inl Storage_quota_exceeded_or_unavailable else Inr updated,
               w\<lparr>mediaItems := JArr ys, api_log := api_log w @ [''updateMedia''], storage := snd r\<rparr>)
      else (Inl Media_item_not_found, w\<lparr>api_log := api_log w @ [''updateMedia'']\<rparr>))"
  using assms by (simp add: updateMedia_def Let_def findIndex_objects save_case)

lemma deleteMedia_eq:
  assumes "mediaItems w = JArr xs" and "list_all is_object xs"
  shows "deleteMedia i e w =
     (if list_ex (has_id i) xs
      then let k = first_index i xs;
               ys = take k xs @ drop (Suc k) xs;
               r = saveToStorage (snapshot (JArr ys) e) (storage w)
           in (if write_fails (storage w) (snapshot (JArr ys) e)
               then Inl Storage_quota_exceeded_or_unavailable else Inr (),
               w\<lparr>mediaItems := JArr ys, api_log := api_log w @ [''deleteMedia''], storage := snd r\<rparr>)
      else (Inl Media_item_not_found, w\<lparr>api_log := api_log w @ [''deleteMedia'']\<rparr>))"
  using assms by (simp add: deleteMedia_def Let_def findIndex_objects save_case)

section \<open>Atomicity of the mutating methods\<close>

lemma snd_saveToStorage_throws:
  "setItem_throws (snd (saveToStorage d s)) = setItem_throws s"
  by (simp add: saveToStorage_eq Let_def)

text \<open>
  C1, as the specification states it, fails: "when the persistence write fails with
  StorageUnavailable, the in-memory Catalog is the same as before the call". On a storage
  where every write throws, \<open>createMedia\<close> throws
  \<open>'Storage quota exceeded or unavailable'\<close> and the catalog, empty before the call,
  holds the new record after it: \<open>push\<close> comes before \<open>saveToStorage\<close> and nothing
  undoes it.
\<close>

theorem createMedia_write_fails_counterexample:
  "fst (createMedia cat_photo sample_env full_world) = Inl Storage_quota_exceeded_or_unavailable \<and>
   mediaItems full_world = JArr [] \<and>
   mediaItems (snd (createMedia cat_photo sample_env full_world)) = JArr [new_mediaItem cat_photo sample_env]"
proof -
  have m: "mediaItems full_world = JArr []"
    by (simp add: full_world_def fresh_world_def)
  have f: "write_fails (storage full_world) d" for d
    by (simp add: write_fails_def full_world_def full_storage_def)
  show ?thesis
    by (simp add: createMedia_eq[OF m] Let_def f m)
qed

text \<open>
  C1, amended: every mutating operation applies its change to the in-memory catalog in
  full before it attempts the persistence write, and never undoes it. For a catalog that
  is an array of records: \<open>createMedia\<close> leaves the catalog with the new record
  appended; \<open>updateMedia\<close> and \<open>deleteMedia\<close> on an absent id throw
  \<open>'Media item not found'\<close> and leave catalog and storage as they were, and on a
  present id leave the catalog with the first record of that id replaced by the merged
  record, or removed. In each case the catalog after the call is the fully changed one
  whether or not the write succeeds; the call returns normally exactly when neither slot
  write fails, and then both slots hold the snapshot of the changed catalog; otherwise
  the caller gets \<open>'Storage quota exceeded or unavailable'\<close>.
\<close>

theorem mutation_applied_before_write:
  assumes "mediaItems w = JArr xs" and "list_all is_object xs"
  shows
    "(let ys = xs @ [new_mediaItem md e]; r = createMedia md e w in
        mediaItems (snd r) = JArr ys \<and>
        (if write_fails (storage w) (snapshot (JArr ys) e)
         then fst r = Inl Storage_quota_exceeded_or_unavailable
         else fst r = Inr (new_mediaItem md e) \<and> persisted (storage (snd r)) (snapshot (JArr ys) e))) \<and>
     (let r = updateMedia i u e w in
        if list_ex (has_id i) xs
        then (let k = first_index i xs;
                  ys = xs[k := JObj (spread (own_props (xs ! k)) u)] in
              mediaItems (snd r) = JArr ys \<and>
              (if write_fails (storage w) (snapshot (JArr ys) e)
               then fst r = Inl Storage_quota_exceeded_or_unavailable
               else fst r = Inr (ys ! k) \<and> persisted (storage (snd r)) (snapshot (JArr ys) e)))
        else fst r = Inl Media_item_not_found \<and> mediaItems (snd r) = JArr xs \<and>
             storage (snd r) = storage w) \<and>
     (let r = deleteMedia i e w in
        if list_ex (has_id i) xs
        then (let k = first_index i xs;
                  ys = take k xs @ drop (Suc k) xs in
              mediaItems (snd r) = JArr ys \<and>
              (if write_fails (storage w) (snapshot (JArr ys) e)
               then fst r = Inl Storage_quota_exceeded_or_unavailable
               else fst r = Inr () \<and> persisted (storage (snd r)) (snapshot (JArr ys) e)))
        else fst r = Inl Media_item_not_found \<and> mediaItems (snd r) = JArr xs \<and>
             storage (snd r) = storage w)"
proof -
  have c: "let ys = xs @ [new_mediaItem md e]; r = createMedia md e w in
        mediaItems (snd r) = JArr ys \<and>
        (if write_fails (storage w) (snapshot (JArr ys) e)
         then fst r = Inl Storage_quota_exceeded_or_unavailable
         else fst r = Inr (new_mediaItem md e) \<and> persisted (storage (snd r)) (snapshot (JArr ys) e))"
    by (simp add: createMedia_eq[OF assms(1)] Let_def saveToStorage_persisted)
  have k: "list_ex (has_id i) xs \<Longrightarrow> first_index i xs < length xs"
    by (rule first_index_less)
  have u: "let r = updateMedia i u e w in
        if list_ex (has_id i) xs
        then (let k = first_index i xs;
                  ys = xs[k := JObj (spread (own_props (xs ! k)) u)] in
              mediaItems (snd r) = JArr ys \<and>
              (if write_fails (storage w) (snapshot (JArr ys) e)
               then fst r = Inl Storage_quota_exceeded_or_unavailable
               else fst r = Inr (ys ! k) \<and> persisted (storage (snd r)) (snapshot (JArr ys) e)))
        else fst r = Inl Media_item_not_found \<and> mediaItems (snd r) = JArr xs \<and>
             storage (snd r) = storage w"
    using k by (simp add: updateMedia_eq[OF assms] Let_def saveToStorage_persisted assms(1))
  have d: "let r = deleteMedia i e w in
        if list_ex (has_id i) xs
        then (let k = first_index i xs;
                  ys = take k xs @ drop (Suc k) xs in
              mediaItems (snd r) = JArr ys \<and>
              (if write_fails (storage w) (snapshot (JArr ys) e)
               then fst r = Inl Storage_quota_exceeded_or_unavailable
               else fst r = Inr () \<and> persisted (storage (snd r)) (snapshot (JArr ys) e)))
        else fst r = Inl Media_item_not_found \<and> mediaItems (snd r) = JArr xs \<and>
             storage (snd r) = storage w"
    by (simp add: deleteMedia_eq[OF assms] Let_def saveToStorage_persisted assms(1))
  from c u d show ?thesis by blast
qed

text \<open>The record \<open>createMedia\<close> builds.\<close>

lemma has_id_new_mediaItem: "has_id i (new_mediaItem md e) \<longleftrightarrow> i = generateId e"
  by (auto simp add: has_id_def new_mediaItem_def)

lemma is_object_new_mediaItem: "is_object (new_mediaItem md e)"
  by (simp add: new_mediaItem_def)

text \<open>The theorem at a catalog of one record over a storage on which every write
  throws.\<close>

theorem mutation_applied_before_write_witness:
  "mediaItems cat_world_full = JArr [cat_record] \<and> list_all is_object [cat_record] \<and>
   fst (createMedia cat_photo sample_env cat_world_full) = Inl Storage_quota_exceeded_or_unavailable \<and>
   mediaItems (snd (createMedia cat_photo sample_env cat_world_full))
     = JArr [cat_record, new_mediaItem cat_photo sample_env] \<and>
   fst (deleteMedia cat_id sample_env cat_world_full) = Inl Storage_quota_exceeded_or_unavailable \<and>
   mediaItems (snd (deleteMedia cat_id sample_env cat_world_full)) = JArr [] \<and>
   fst (updateMedia ''no such id'' [] sample_env cat_world_full) = Inl Media_item_not_found \<and>
   mediaItems (snd (updateMedia ''no such id'' [] sample_env cat_world_full)) = JArr [cat_record]"
proof -
  have m: "mediaItems cat_world_full = JArr [cat_record]"
    by (simp add: cat_world_full_def)
  have o: "list_all is_object [cat_record]"
    by (simp add: cat_record_def is_object_new_mediaItem)
  have f: "write_fails (storage cat_world_full) d" for d
    by (simp add: write_fails_def cat_world_full_def full_world_def full_storage_def)
  have a: "\<not> has_id ''no such id'' cat_record"
    by (simp add: cat_record_def has_id_new_mediaItem generateId_def sample_env_def
        toString36.simps digit36_def)
  have b: "has_id cat_id cat_record"
    by (simp add: cat_id_def cat_record_def has_id_new_mediaItem)
  have fi: "first_index cat_id [cat_record] = 0"
    using b by (simp add: first_index_def)
  show ?thesis
    using mutation_applied_before_write[OF m o, of cat_photo sample_env cat_id "[]" ]
          mutation_applied_before_write[OF m o, of cat_photo sample_env "''no such id''" "[]" ]
    by (simp add: Let_def f a b fi m o[simplified])
qed

section \<open>Reading, updating and deleting records\<close>

lemma getMedia_array: "mediaItems w = JArr xs \<Longrightarrow> fst (getMedia w) = Inr xs"
  by (simp add: getMedia_def Let_def)

lemma getMedia_world:
  "mediaItems (snd (getMedia w)) = mediaItems w \<and> storage (snd (getMedia w)) = storage w"
  by (simp add: getMedia_def Let_def split: jsval.splits)

lemma mediaItems_updateMedia:
  assumes "mediaItems w = JArr xs" and "list_all is_object xs" and "list_ex (has_id i) xs"
  shows "mediaItems (snd (updateMedia i u e w))
           = JArr (xs[first_index i xs := JObj (spread (own_props (xs ! first_index i xs)) u)])"
  using assms(3) by (simp add: updateMedia_eq[OF assms(1,2)] Let_def)

lemma is_object_nth:
  "list_all is_object xs \<Longrightarrow> k < length xs \<Longrightarrow> distinct (map fst (own_props (xs ! k)))"
  by (cases "xs ! k") (auto simp add: list_all_length)

text \<open>
  C5: for every catalog (an array of records) and every id present in it,
  \<open>updateMedia id {description: d}\<close> followed by \<open>getMedia\<close> lists as many records as
  before; the record that had the id (the first one, at the position \<open>findIndex\<close>
  returns) now reads \<open>d\<close> as its description and reads as before on every other field,
  so on \<open>id\<close>, \<open>fileName\<close>, \<open>uploadDate\<close>, \<open>fileType\<close> and \<open>fileSize\<close>; every
  other position holds the record it held. This holds whether or not the persistence
  write of the update succeeded.
\<close>

theorem update_description_only:
  assumes "mediaItems w = JArr xs" and "list_all is_object xs" and "list_ex (has_id i) xs"
  shows "\<exists>ys. fst (getMedia (snd (updateMedia i [(''description'', d)] e w))) = Inr ys \<and>
           length ys = length xs \<and>
           has_id i (xs ! first_index i xs) \<and>
           get_prop (ys ! first_index i xs) ''description'' = Inr d \<and>
           (\<forall>f. f \<noteq> ''description'' \<longrightarrow>
                get_prop (ys ! first_index i xs) f = get_prop (xs ! first_index i xs) f) \<and>
           (\<forall>j<length xs. j \<noteq> first_index i xs \<longrightarrow> ys ! j = xs ! j)"
proof -
  let ?k = "first_index i xs"
  let ?new = "JObj (spread (own_props (xs ! ?k)) [(''description'', d)])"
  let ?ys = "xs[?k := ?new]"
  have k: "?k < length xs" using assms(3) by (rule first_index_less)
  have dk: "distinct (map fst (own_props (xs ! ?k)))" using assms(2) k by (rule is_object_nth)
  have ok: "is_object (xs ! ?k)" using assms(2) k by (simp add: list_all_length)
  have m: "mediaItems (snd (updateMedia i [(''description'', d)] e w)) = JArr ?ys"
    using assms by (rule mediaItems_updateMedia)
  have g: "fst (getMedia (snd (updateMedia i [(''description'', d)] e w))) = Inr ?ys"
    using m by (rule getMedia_array)
  have rd: "get_prop ?new f = Inr (if f = ''description'' then d else field (own_props (xs ! ?k)) f)" for f
    using dk by (simp add: field_def[symmetric] field_spread)
  have "get_prop (?ys ! ?k) ''description'' = Inr d"
    using k rd by simp
  moreover have "\<forall>f. f \<noteq> ''description'' \<longrightarrow> get_prop (?ys ! ?k) f = get_prop (xs ! ?k) f"
    using k rd ok by (simp add: get_prop_object)
  moreover have "\<forall>j<length xs. j \<noteq> ?k \<longrightarrow> ?ys ! j = xs ! j"
    by simp
  moreover have "has_id i (xs ! ?k)" using assms(3) by (rule first_index_has_id)
  ultimately show ?thesis using g by simp
qed

text \<open>The theorem on the catalog of one record: the new description is read back, the
  file name and the id are what they were.\<close>

theorem update_description_only_witness:
  "mediaItems cat_world = JArr [cat_record] \<and> list_all is_object [cat_record] \<and>
   list_ex (has_id cat_id) [cat_record] \<and>
   (\<exists>ys. fst (getMedia (snd (updateMedia cat_id [(''description'', JStr ''new cat photo'')]
                                sample_env cat_world))) = Inr ys \<and>
         length ys = 1 \<and>
         get_prop (ys ! 0) ''description'' = Inr (JStr ''new cat photo'') \<and>
         get_prop (ys ! 0) ''fileName'' = Inr (JStr ''a.png'') \<and>
         get_prop (ys ! 0) ''id'' = Inr (JStr cat_id))"
proof -
  have m: "mediaItems cat_world = JArr [cat_record]"
    by (simp add: cat_world_def)
  have o: "list_all is_object [cat_record]"
    by (simp add: cat_record_def is_object_new_mediaItem)
  have p: "list_ex (has_id cat_id) [cat_record]"
    by (simp add: cat_id_def cat_record_def has_id_new_mediaItem)
  have fi: "first_index cat_id [cat_record] = 0"
    using p by (simp add: first_index_def)
  have old: "get_prop cat_record ''fileName'' = Inr (JStr ''a.png'')"
            "get_prop cat_record ''id'' = Inr (JStr cat_id)"
    by (simp_all add: cat_record_def new_mediaItem_def cat_photo_def field_def cat_id_def)
  from update_description_only[OF m o p, of "JStr ''new cat photo''" sample_env]
  obtain ys where ys:
    "fst (getMedia (snd (updateMedia cat_id [(''description'', JStr ''new cat photo'')]
                                sample_env cat_world))) = Inr ys"
    "length ys = 1"
    "get_prop (ys ! 0) ''description'' = Inr (JStr ''new cat photo'')"
    "\<forall>f. f \<noteq> ''description'' \<longrightarrow> get_prop (ys ! 0) f = get_prop cat_record f"
    by (auto simp add: fi)
  from ys(4) old have "get_prop (ys ! 0) ''fileName'' = Inr (JStr ''a.png'')"
    "get_prop (ys ! 0) ''id'' = Inr (JStr cat_id)"
    by simp_all
  with ys m o p show ?thesis by blast
qed

text \<open>
  C10: \<open>updateMedia\<close> applies every key of its \<open>updates\<close> argument, whatever the
  key. For every catalog, every id present in it and every \<open>updates\<close> object, the record
  listed afterwards reads, on each field, the value \<open>updates\<close> supplies for it, and the
  old record's value on the fields \<open>updates\<close> does not supply; it is also the record
  returned, unless the persistence write throws.
\<close>

theorem update_overwrites_every_supplied_key:
  assumes "mediaItems w = JArr xs" and "list_all is_object xs" and "list_ex (has_id i) xs"
    and "distinct (map fst updates)"
  shows "\<exists>ys. fst (getMedia (snd (updateMedia i updates e w))) = Inr ys \<and>
           length ys = length xs \<and>
           (\<forall>f. get_prop (ys ! first_index i xs) f =
                  Inr (case map_of updates f of
                         None \<Rightarrow> field (own_props (xs ! first_index i xs)) f
                       | Some v \<Rightarrow> v)) \<and>
           (fst (updateMedia i updates e w) = Inr (ys ! first_index i xs) \<or>
            fst (updateMedia i updates e w) = Inl Storage_quota_exceeded_or_unavailable)"
proof -
  let ?k = "first_index i xs"
  let ?new = "JObj (spread (own_props (xs ! ?k)) updates)"
  let ?ys = "xs[?k := ?new]"
  have k: "?k < length xs" using assms(3) by (rule first_index_less)
  have dk: "distinct (map fst (own_props (xs ! ?k)))" using assms(2) k by (rule is_object_nth)
  have m: "mediaItems (snd (updateMedia i updates e w)) = JArr ?ys"
    using assms(1-3) by (rule mediaItems_updateMedia)
  have g: "fst (getMedia (snd (updateMedia i updates e w))) = Inr ?ys"
    using m by (rule getMedia_array)
  have rd: "get_prop ?new f = Inr (case map_of updates f of
                         None \<Rightarrow> field (own_props (xs ! ?k)) f | Some v \<Rightarrow> v)" for f
    using dk assms(4) by (simp add: field_def[symmetric] field_spread)
  have r: "fst (updateMedia i updates e w) = Inr (?ys ! ?k) \<or>
           fst (updateMedia i updates e w) = Inl Storage_quota_exceeded_or_unavailable"
    using assms(3) k by (simp add: updateMedia_eq[OF assms(1,2)] Let_def)
  show ?thesis using g rd r k by simp
qed

text \<open>The theorem on the catalog of one record: supplying \<open>id\<close> and \<open>fileName\<close>
  overwrites both, and the description is kept.\<close>

theorem update_overwrites_every_supplied_key_witness:
  "mediaItems cat_world = JArr [cat_record] \<and> list_all is_object [cat_record] \<and>
   list_ex (has_id cat_id) [cat_record] \<and>
   distinct (map fst [(''id'', JStr ''other''), (''fileName'', JStr ''b.png'')]) \<and>
   (\<exists>ys. fst (getMedia (snd (updateMedia cat_id
                                [(''id'', JStr ''other''), (''fileName'', JStr ''b.png'')]
                                sample_env cat_world))) = Inr ys \<and>
         get_prop (ys ! 0) ''id'' = Inr (JStr ''other'') \<and>
         get_prop (ys ! 0) ''fileName'' = Inr (JStr ''b.png'') \<and>
         get_prop (ys ! 0) ''description'' = Inr (JStr ''cat photo''))"
proof -
  have m: "mediaItems cat_world = JArr [cat_record]"
    by (simp add: cat_world_def)
  have o: "list_all is_object [cat_record]"
    by (simp add: cat_record_def is_object_new_mediaItem)
  have p: "list_ex (has_id cat_id) [cat_record]"
    by (simp add: cat_id_def cat_record_def has_id_new_mediaItem)
  have d: "distinct (map fst [(''id'', JStr ''other''), (''fileName'', JStr ''b.png'')])"
    by simp
  have fi: "first_index cat_id [cat_record] = 0"
    using p by (simp add: first_index_def)
  have old: "field (own_props cat_record) ''description'' = JStr ''cat photo''"
    by (simp add: cat_record_def new_mediaItem_def cat_photo_def field_def)
  from update_overwrites_every_supplied_key[OF m o p d, of sample_env]
  obtain ys where ys:
    "fst (getMedia (snd (updateMedia cat_id
                                [(''id'', JStr ''other''), (''fileName'', JStr ''b.png'')]
                                sample_env cat_world))) = Inr ys"
    "\<forall>f. get_prop (ys ! 0) f =
          Inr (case map_of [(''id'', JStr ''other''), (''fileName'', JStr ''b.png'')] f of
                 None \<Rightarrow> field (own_props cat_record) f | Some v \<Rightarrow> v)"
    by (auto simp add: fi)
  have "get_prop (ys ! 0) ''id'' = Inr (JStr ''other'')"
       "get_prop (ys ! 0) ''fileName'' = Inr (JStr ''b.png'')"
       "get_prop (ys ! 0) ''description'' = Inr (JStr ''cat photo'')"
    using old by (simp_all add: ys(2))
  with ys(1) m o p d show ?thesis by blast
qed

subsection \<open>Absent ids\<close>

lemma has_id_object: "is_object x \<Longrightarrow> has_id i x \<longleftrightarrow> field (own_props x) ''id'' = JStr i"
  by (simp add: has_id_def get_prop_object)

lemma list_ex_has_id_ids:
  "list_all is_object xs \<Longrightarrow> list_ex (has_id i) xs \<longleftrightarrow> JStr i \<in> set (ids xs)"
  by (induction xs) (auto simp add: ids_def has_id_object)

lemma list_all_splice: "list_all P xs \<Longrightarrow> list_all P (take k xs @ drop (Suc k) xs)"
  by (auto simp add: list_all_iff dest: in_set_takeD in_set_dropD)

text \<open>\<open>splice(index, 1)\<close> at the position of the first match removes one matching
  element and no other.\<close>

lemma filter_splice_first:
  "length (filter P (take (length (takeWhile (\<lambda>x. \<not> P x) xs)) xs @
                     drop (Suc (length (takeWhile (\<lambda>x. \<not> P x) xs))) xs))
     = length (filter P xs) - 1"
  by (induction xs) auto

lemma list_ex_filter: "list_ex P xs \<longleftrightarrow> 0 < length (filter P xs)"
  by (simp add: list_ex_iff filter_empty_conv)

lemma distinct_ids_at_most_one:
  "list_all is_object xs \<Longrightarrow> distinct (ids xs) \<Longrightarrow> length (filter (has_id i) xs) \<le> 1"
proof (induction xs)
  case Nil
  show ?case by simp
next
  case (Cons x xs)
  then have IH: "length (filter (has_id i) xs) \<le> 1" by (simp add: ids_def)
  show ?case
  proof (cases "has_id i x")
    case True
    then have "JStr i \<notin> set (ids xs)"
      using Cons.prems by (simp add: ids_def has_id_object)
    then have "\<not> list_ex (has_id i) xs"
      using Cons.prems(1) by (simp add: list_ex_has_id_ids)
    then show ?thesis using True by (simp add: list_ex_filter)
  next
    case False
    then show ?thesis using IH by simp
  qed
qed

lemma mediaItems_deleteMedia:
  assumes "mediaItems w = JArr xs" and "list_all is_object xs"
  shows "mediaItems (snd (deleteMedia i e w)) =
           JArr (take (first_index i xs) xs @ drop (Suc (first_index i xs)) xs)"
proof (cases "list_ex (has_id i) xs")
  case True
  then show ?thesis by (simp add: deleteMedia_eq[OF assms] Let_def)
next
  case False
  then have "takeWhile (\<lambda>x. \<not> has_id i x) xs = xs"
    by (simp add: list_ex_iff takeWhile_eq_all_conv)
  then have "first_index i xs = length xs"
    unfolding first_index_def by (rule arg_cong)
  then show ?thesis using False assms(1) by (simp add: deleteMedia_eq[OF assms])
qed

text \<open>The sample records and the record \<open>updateMedia\<close> makes of the second one when it
  is given the id of the first.\<close>

lemma generateId_sample_env: "generateId sample_env = ''mhhwudq8k3x9q2m1''"
  by (simp add: generateId_def sample_env_def toString36.simps digit36_def)

lemma generateId_later_env: "generateId later_env = ''mhhwvo0w7w0zr4tb''"
  by (simp add: generateId_def later_env_def toString36.simps digit36_def)

lemma distinct_spread: "distinct (map fst (spread a b))"
  by (simp add: spread_def distinct_assign)

lemma setItem_throws_updateMedia:
  "setItem_throws (storage (snd (updateMedia i u e w))) = setItem_throws (storage w)"
  by (simp add: updateMedia_def Let_def save_case snd_saveToStorage_throws
      split: jsval.splits sum.splits option.splits)

lemma setItem_throws_deleteMedia:
  "setItem_throws (storage (snd (deleteMedia i e w))) = setItem_throws (storage w)"
  by (simp add: deleteMedia_def Let_def save_case snd_saveToStorage_throws
      split: jsval.splits sum.splits option.splits)

lemma cat_id_neq_memo_id: "cat_id \<noteq> memo_id"
  by (simp add: cat_id_def memo_id_def generateId_sample_env generateId_later_env)

lemma two_records:
  "list_all is_object [cat_record, memo_record]"
  "distinct (ids [cat_record, memo_record])"
  "has_id cat_id cat_record" "\<not> has_id cat_id memo_record"
  "has_id memo_id memo_record" "\<not> has_id memo_id cat_record"
proof -
  show "list_all is_object [cat_record, memo_record]"
    by (simp add: cat_record_def memo_record_def is_object_new_mediaItem)
  show "distinct (ids [cat_record, memo_record])"
    by (simp add: ids_def cat_record_def memo_record_def new_mediaItem_def field_def
        generateId_sample_env generateId_later_env)
  show "has_id cat_id cat_record" "\<not> has_id cat_id memo_record"
    "has_id memo_id memo_record" "\<not> has_id memo_id cat_record"
    using cat_id_neq_memo_id
    by (auto simp add: cat_record_def memo_record_def has_id_new_mediaItem cat_id_def memo_id_def)
qed

lemma renamed_memo_props: "is_object renamed_memo" "has_id cat_id renamed_memo"
proof -
  show "is_object renamed_memo" by (simp add: renamed_memo_def distinct_spread)
  have "distinct (map fst (own_props memo_record))"
    by (simp add: memo_record_def new_mediaItem_def)
  then have "field (spread (own_props memo_record) [(''id'', JStr cat_id)]) ''id'' = JStr cat_id"
    by (simp add: field_spread)
  then show "has_id cat_id renamed_memo"
    by (simp add: has_id_def renamed_memo_def field_def)
qed

text \<open>
  C6, as the specification states it, fails: "for every Catalog and id, delete(id)
  followed by list yields a list not containing id, and a second delete(id) fails with
  NotFound". The store does not keep ids distinct: on a catalog of two records with
  different ids, \<open>updateMedia\<close> accepts \<open>{id: ...}\<close> and gives the second record the id
  of the first. On the catalog it leaves, \<open>deleteMedia\<close> of that id removes the first
  record only, \<open>getMedia\<close> still lists a record with the id, and the second
  \<open>deleteMedia\<close> returns normally.
\<close>

theorem delete_with_duplicate_ids_counterexample:
  "mediaItems two_record_world = JArr [cat_record, memo_record] \<and>
   list_all is_object [cat_record, memo_record] \<and>
   distinct (ids [cat_record, memo_record]) \<and>
   fst (updateMedia memo_id [(''id'', JStr cat_id)] later_env two_record_world) = Inr renamed_memo \<and>
   mediaItems duplicate_id_world = JArr [cat_record, renamed_memo] \<and>
   fst (deleteMedia cat_id later_env duplicate_id_world) = Inr () \<and>
   fst (getMedia (snd (deleteMedia cat_id later_env duplicate_id_world))) = Inr [renamed_memo] \<and>
   has_id cat_id renamed_memo \<and>
   fst (deleteMedia cat_id later_env
          (snd (getMedia (snd (deleteMedia cat_id later_env duplicate_id_world))))) = Inr ()"
proof -
  let ?u = "[(''id'', JStr cat_id)]"
  have m0: "mediaItems two_record_world = JArr [cat_record, memo_record]"
    by (simp add: two_record_world_def)
  have t0: "setItem_throws (storage two_record_world) = (\<lambda>k t. False)"
    by (simp add: two_record_world_def fresh_world_def empty_storage_def)
  have nf0: "\<not> write_fails (storage two_record_world) d" for d
    by (simp add: write_fails_def t0)
  have k0: "first_index memo_id [cat_record, memo_record] = 1"
    using two_records(5,6) by (simp add: first_index_def)
  have e0: "list_ex (has_id memo_id) [cat_record, memo_record]"
    using two_records(5) by simp
  have r0: "fst (updateMedia memo_id ?u later_env two_record_world) = Inr renamed_memo"
    using e0 by (simp add: updateMedia_eq[OF m0 two_records(1)] Let_def k0 nf0 renamed_memo_def)
  have m1: "mediaItems duplicate_id_world = JArr [cat_record, renamed_memo]"
    unfolding duplicate_id_world_def
    using e0 by (simp add: updateMedia_eq[OF m0 two_records(1)] Let_def k0 renamed_memo_def)
  have o1: "list_all is_object [cat_record, renamed_memo]"
    using two_records(1) renamed_memo_props(1) by simp
  have t1: "setItem_throws (storage duplicate_id_world) = (\<lambda>k t. False)"
    unfolding duplicate_id_world_def by (simp add: setItem_throws_updateMedia t0)
  have nf1: "\<not> write_fails (storage duplicate_id_world) d" for d
    by (simp add: write_fails_def t1)
  have k1: "first_index cat_id [cat_record, renamed_memo] = 0"
    using two_records(3) by (simp add: first_index_def)
  have e1: "list_ex (has_id cat_id) [cat_record, renamed_memo]"
    using two_records(3) by simp
  let ?w2 = "snd (deleteMedia cat_id later_env duplicate_id_world)"
  have r1: "fst (deleteMedia cat_id later_env duplicate_id_world) = Inr ()"
    using e1 by (simp add: deleteMedia_eq[OF m1 o1] Let_def k1 nf1)
  have m2: "mediaItems ?w2 = JArr [renamed_memo]"
    using e1 by (simp add: deleteMedia_eq[OF m1 o1] Let_def k1)
  have g: "fst (getMedia ?w2) = Inr [renamed_memo]"
    using m2 by (rule getMedia_array)
  let ?w3 = "snd (getMedia ?w2)"
  have m3: "mediaItems ?w3 = JArr [renamed_memo]"
    using m2 by (simp add: getMedia_world)
  have o3: "list_all is_object [renamed_memo]"
    using renamed_memo_props(1) by simp
  have t3: "setItem_throws (storage ?w3) = (\<lambda>k t. False)"
    by (simp add: getMedia_world setItem_throws_deleteMedia t1)
  have nf3: "\<not> write_fails (storage ?w3) d" for d
    by (simp add: write_fails_def t3)
  have e3: "list_ex (has_id cat_id) [renamed_memo]"
    using renamed_memo_props(2) by simp
  have r3: "fst (deleteMedia cat_id later_env ?w3) = Inr ()"
    using e3 by (simp add: deleteMedia_eq[OF m3 o3] Let_def nf3)
  from m0 two_records(1,2) r0 m1 r1 g renamed_memo_props(2) r3 show ?thesis by blast
qed

text \<open>
  C6, amended: on every catalog (an array of records) \<open>updateMedia\<close> and
  \<open>deleteMedia\<close> throw \<open>'Media item not found'\<close> exactly when no record has the id.
  \<open>deleteMedia id\<close> removes the first record with the id and no other, so
  \<open>getMedia\<close> afterwards lists a record with the id exactly when two or more records
  had it, and a second \<open>deleteMedia id\<close> throws \<open>'Media item not found'\<close> exactly when
  at most one record had it, then leaving the catalog and the storage as the first one
  left them. At most one record has the id whenever the ids of the catalog are pairwise
  distinct.
\<close>

theorem not_found_exactly_when_absent:
  assumes "mediaItems w = JArr xs" and "list_all is_object xs"
  shows "(fst (updateMedia i updates e w) = Inl Media_item_not_found \<longleftrightarrow> \<not> list_ex (has_id i) xs) \<and>
         (fst (deleteMedia i e w) = Inl Media_item_not_found \<longleftrightarrow> \<not> list_ex (has_id i) xs) \<and>
         fst (getMedia (snd (deleteMedia i e w)))
           = Inr (take (first_index i xs) xs @ drop (Suc (first_index i xs)) xs) \<and>
         (\<exists>ys. fst (getMedia (snd (deleteMedia i e w))) = Inr ys \<and>
               (list_ex (has_id i) ys \<longleftrightarrow> 2 \<le> length (filter (has_id i) xs))) \<and>
         (fst (deleteMedia i e' (snd (getMedia (snd (deleteMedia i e w))))) = Inl Media_item_not_found
            \<longleftrightarrow> length (filter (has_id i) xs) \<le> 1) \<and>
         (length (filter (has_id i) xs) \<le> 1 \<longrightarrow>
            mediaItems (snd (deleteMedia i e' (snd (getMedia (snd (deleteMedia i e w))))))
              = mediaItems (snd (deleteMedia i e w)) \<and>
            storage (snd (deleteMedia i e' (snd (getMedia (snd (deleteMedia i e w))))))
              = storage (snd (deleteMedia i e w))) \<and>
         (distinct (ids xs) \<longrightarrow> length (filter (has_id i) xs) \<le> 1)"
proof -
  let ?w1 = "snd (deleteMedia i e w)"
  let ?w2 = "snd (getMedia ?w1)"
  let ?ys = "take (first_index i xs) xs @ drop (Suc (first_index i xs)) xs"
  have u: "fst (updateMedia i updates e w) = Inl Media_item_not_found \<longleftrightarrow> \<not> list_ex (has_id i) xs"
    by (simp add: updateMedia_eq[OF assms] Let_def)
  have d: "fst (deleteMedia i e w) = Inl Media_item_not_found \<longleftrightarrow> \<not> list_ex (has_id i) xs"
    by (simp add: deleteMedia_eq[OF assms] Let_def)
  have m1: "mediaItems ?w1 = JArr ?ys" using assms by (rule mediaItems_deleteMedia)
  have o1: "list_all is_object ?ys" using assms(2) by (rule list_all_splice)
  have g: "fst (getMedia ?w1) = Inr ?ys" using m1 by (rule getMedia_array)
  have n: "length (filter (has_id i) ?ys) = length (filter (has_id i) xs) - 1"
    unfolding first_index_def by (rule filter_splice_first)
  have l: "list_ex (has_id i) ?ys \<longleftrightarrow> 2 \<le> length (filter (has_id i) xs)"
    using n by (auto simp add: list_ex_filter)
  have m2: "mediaItems ?w2 = JArr ?ys" "storage ?w2 = storage ?w1"
    using m1 by (simp_all add: getMedia_world)
  have s1: "fst (deleteMedia i e' ?w2) = Inl Media_item_not_found
            \<longleftrightarrow> length (filter (has_id i) xs) \<le> 1"
    using l by (auto simp add: deleteMedia_eq[OF m2(1) o1] Let_def)
  have s2: "length (filter (has_id i) xs) \<le> 1 \<longrightarrow>
            mediaItems (snd (deleteMedia i e' ?w2)) = mediaItems ?w1 \<and>
            storage (snd (deleteMedia i e' ?w2)) = storage ?w1"
    using l m1 m2 by (auto simp add: deleteMedia_eq[OF m2(1) o1])
  have di: "distinct (ids xs) \<longrightarrow> length (filter (has_id i) xs) \<le> 1"
    using distinct_ids_at_most_one[OF assms(2), of i] by blast
  from u d g l s1 s2 di show ?thesis by blast
qed

text \<open>The theorem on the catalog of the two sample records: the id of the first is
  found by both methods, an unknown id by neither, and deleting the first record twice
  fails the second time.\<close>

theorem not_found_exactly_when_absent_witness:
  "mediaItems two_record_world = JArr [cat_record, memo_record] \<and>
   list_all is_object [cat_record, memo_record] \<and>
   distinct (ids [cat_record, memo_record]) \<and>
   length (filter (has_id cat_id) [cat_record, memo_record]) \<le> 1 \<and>
   fst (updateMedia cat_id [] sample_env two_record_world) \<noteq> Inl Media_item_not_found \<and>
   fst (updateMedia ''no such id'' [] sample_env two_record_world) = Inl Media_item_not_found \<and>
   fst (deleteMedia cat_id sample_env two_record_world) \<noteq> Inl Media_item_not_found \<and>
   fst (getMedia (snd (deleteMedia cat_id sample_env two_record_world))) = Inr [memo_record] \<and>
   fst (deleteMedia cat_id sample_env
          (snd (getMedia (snd (deleteMedia cat_id sample_env two_record_world)))))
     = Inl Media_item_not_found \<and>
   mediaItems (snd (deleteMedia cat_id sample_env
          (snd (getMedia (snd (deleteMedia cat_id sample_env two_record_world))))))
     = mediaItems (snd (deleteMedia cat_id sample_env two_record_world))"
proof -
  have m: "mediaItems two_record_world = JArr [cat_record, memo_record]"
    by (simp add: two_record_world_def)
  have k: "first_index cat_id [cat_record, memo_record] = 0"
    using two_records(3) by (simp add: first_index_def)
  have n: "\<not> has_id ''no such id'' cat_record" "\<not> has_id ''no such id'' memo_record"
    by (simp_all add: cat_record_def memo_record_def has_id_new_mediaItem
        generateId_sample_env generateId_later_env)
  show ?thesis
    using not_found_exactly_when_absent[OF m two_records(1), of cat_id "[]" sample_env sample_env]
          not_found_exactly_when_absent[OF m two_records(1), of "''no such id''" "[]" sample_env sample_env]
          two_records m k n
    by simp
qed

section \<open>Loading the catalog\<close>

text \<open>\<open>loadFromStorage\<close> by what the primary slot holds.\<close>

lemma read_slot_eq:
  "read_slot k s =
     (if getItem_throws s k then Inl SecurityError
      else case items s k of
             None \<Rightarrow> Inr default_data
           | Some Empty_text \<Rightarrow> Inr default_data
           | Some Malformed_text \<Rightarrow> Inl SyntaxError
           | Some (Json_text v) \<Rightarrow> Inr v,
      s\<lparr>getItem_log := getItem_log s @ [k]\<rparr>)"
  by (simp add: read_slot_def getItem_def Let_def split: option.splits stored_text.splits)

lemma isl_read_slot_primary:
  "isl (fst (read_slot storageKey s)) \<longleftrightarrow> primary_fails s"
  by (auto simp add: read_slot_eq primary_fails_def split: option.splits stored_text.splits)

lemma loadFromStorage_log:
  "getItem_log (snd (loadFromStorage s)) =
     getItem_log s @ (if primary_fails s then [storageKey, backupKey] else [storageKey])"
  using isl_read_slot_primary[of s]
  by (cases "fst (read_slot storageKey s)"; cases "fst (read_slot backupKey (snd (read_slot storageKey s)))")
     (auto simp add: loadFromStorage_def read_slot_eq split: prod.splits sum.splits if_splits option.splits stored_text.splits)

lemma loadFromStorage_fst:
  "fst (loadFromStorage s) =
     (if primary_fails s
      then (if getItem_throws s backupKey then default_data
            else case items s backupKey of
                   Some (Json_text v) \<Rightarrow> v
                 | _ \<Rightarrow> default_data)
      else (case items s storageKey of
              Some (Json_text v) \<Rightarrow> v
            | _ \<Rightarrow> default_data))"
  by (auto simp add: loadFromStorage_def read_slot_eq primary_fails_def
      split: option.splits stored_text.splits)

lemma init_eq:
  "init w =
     (Inr (),
      w\<lparr>mediaItems :=
           (case get_prop (fst (loadFromStorage (storage w))) ''mediaItems'' of
              Inr v \<Rightarrow> if truthy v then v else JArr []
            | Inl err \<Rightarrow> JArr []),
        storage := snd (loadFromStorage (storage w))\<rparr>)"
  by (simp add: init_def split: prod.splits sum.splits)

lemma get_prop_default_data: "get_prop default_data ''mediaItems'' = Inr (JArr [])"
  by (simp add: default_data_def)

text \<open>
  C9: \<open>init\<close> reads the backup slot exactly when the first \<open>try\<close> of
  \<open>loadFromStorage\<close> throws, that is when reading the primary slot throws or its text
  does not parse; otherwise it reads the primary slot only. In particular, when the
  primary slot is absent (\<open>getItem\<close> returns \<open>null\<close>), \<open>init\<close> sets the empty
  catalog and has read the primary key and nothing else, whatever the backup slot holds.
\<close>

theorem init_absent_primary_ignores_backup:
  "getItem_log (storage (snd (init w))) =
     getItem_log (storage w) @
       (if primary_fails (storage w) then [storageKey, backupKey] else [storageKey]) \<and>
   (\<not> getItem_throws (storage w) storageKey \<and> items (storage w) storageKey = None \<longrightarrow>
      mediaItems (snd (init w)) = JArr [] \<and>
      getItem_log (storage (snd (init w))) = getItem_log (storage w) @ [storageKey])"
  by (simp add: init_eq loadFromStorage_log loadFromStorage_fst primary_fails_def
      get_prop_default_data)

text \<open>The theorem on a storage whose backup slot holds the snapshot of a catalog of one
  record while the primary slot is absent: the catalog is empty after \<open>init\<close>.\<close>

theorem init_absent_primary_ignores_backup_witness:
  "\<not> getItem_throws (storage backup_only_world) storageKey \<and>
   items (storage backup_only_world) storageKey = None \<and>
   items (storage backup_only_world) backupKey
     = Some (Json_text (json_norm (snapshot (JArr [cat_record]) sample_env))) \<and>
   mediaItems (snd (init backup_only_world)) = JArr [] \<and>
   getItem_log (storage (snd (init backup_only_world))) = [storageKey]"
proof -
  have a: "\<not> getItem_throws (storage backup_only_world) storageKey"
    by (simp add: backup_only_world_def backup_only_storage_def empty_storage_def)
  have b: "items (storage backup_only_world) storageKey = None"
    by (simp add: backup_only_world_def backup_only_storage_def storageKey_def backupKey_def)
  have c: "items (storage backup_only_world) backupKey
     = Some (Json_text (json_norm (snapshot (JArr [cat_record]) sample_env)))"
    by (simp add: backup_only_world_def backup_only_storage_def snapshot_def)
  have l: "getItem_log (storage backup_only_world) = []"
    by (simp add: backup_only_world_def backup_only_storage_def empty_storage_def)
  have n: "\<not> primary_fails (storage backup_only_world)"
    using a b by (simp add: primary_fails_def)
  show ?thesis
    using init_absent_primary_ignores_backup[of backup_only_world] a b c l n by simp
qed

text \<open>
  C4, as the specification states it, fails in its last part: "init always leaves the
  Catalog in a valid (possibly empty) state". When the primary slot holds well-formed JSON
  whose \<open>mediaItems\<close> is the number 5, nothing throws, \<open>data.mediaItems || []\<close> is 5,
  and \<open>init\<close> leaves \<open>AppState.mediaItems\<close> equal to 5, which is not a list.
\<close>

theorem init_wrong_shape_counterexample:
  "fst (init misshapen_world) = Inr () \<and>
   mediaItems (snd (init misshapen_world)) = JNum 5 \<and>
   \<not> is_array (mediaItems (snd (init misshapen_world)))"
  by (simp add: init_eq loadFromStorage_fst primary_fails_def misshapen_world_def
      empty_storage_def storageKey_def backupKey_def)

text \<open>
  C4, amended: \<open>init\<close> never throws. Whenever reading or parsing the primary slot
  fails while the backup slot can be read and holds a snapshot whose \<open>mediaItems\<close> is
  a list, \<open>init\<close> loads exactly that list as the catalog. In every case the catalog
  after \<open>init\<close> is empty or is the \<open>mediaItems\<close> value of the JSON that one of the
  two slots holds; it is a list whenever the JSON in the slots has a list, a falsy value
  or nothing as its \<open>mediaItems\<close>, and \<open>init\<close> does not check the shape otherwise.
\<close>

theorem init_falls_back_to_backup:
  "fst (init w) = Inr () \<and>
   (primary_fails (storage w) \<and> \<not> getItem_throws (storage w) backupKey \<and>
    items (storage w) backupKey = Some (Json_text snap) \<and>
    get_prop snap ''mediaItems'' = Inr (JArr xs) \<longrightarrow>
      mediaItems (snd (init w)) = JArr xs) \<and>
   (mediaItems (snd (init w)) = JArr [] \<or>
    (\<exists>v. (items (storage w) storageKey = Some (Json_text v) \<or>
          items (storage w) backupKey = Some (Json_text v)) \<and>
         get_prop v ''mediaItems'' = Inr (mediaItems (snd (init w))))) \<and>
   ((\<forall>v. items (storage w) storageKey = Some (Json_text v) \<longrightarrow> list_or_nothing v) \<and>
    (\<forall>v. items (storage w) backupKey = Some (Json_text v) \<longrightarrow> list_or_nothing v) \<longrightarrow>
      is_array (mediaItems (snd (init w))))"
proof -
  have a: "fst (init w) = Inr ()" by (simp add: init_eq)
  have b: "primary_fails (storage w) \<and> \<not> getItem_throws (storage w) backupKey \<and>
    items (storage w) backupKey = Some (Json_text snap) \<and>
    get_prop snap ''mediaItems'' = Inr (JArr xs) \<longrightarrow>
      mediaItems (snd (init w)) = JArr xs"
    by (simp add: init_eq loadFromStorage_fst)
  have c: "mediaItems (snd (init w)) = JArr [] \<or>
    (\<exists>v. (items (storage w) storageKey = Some (Json_text v) \<or>
          items (storage w) backupKey = Some (Json_text v)) \<and>
         get_prop v ''mediaItems'' = Inr (mediaItems (snd (init w))))"
    by (auto simp add: init_eq loadFromStorage_fst get_prop_default_data
        split: sum.splits option.splits stored_text.splits)
  have d: "(\<forall>v. items (storage w) storageKey = Some (Json_text v) \<longrightarrow> list_or_nothing v) \<and>
    (\<forall>v. items (storage w) backupKey = Some (Json_text v) \<longrightarrow> list_or_nothing v) \<longrightarrow>
      is_array (mediaItems (snd (init w)))"
  proof (intro impI)
    assume h: "(\<forall>v. items (storage w) storageKey = Some (Json_text v) \<longrightarrow> list_or_nothing v) \<and>
      (\<forall>v. items (storage w) backupKey = Some (Json_text v) \<longrightarrow> list_or_nothing v)"
    from c show "is_array (mediaItems (snd (init w)))"
    proof
      assume "mediaItems (snd (init w)) = JArr []"
      then show ?thesis by simp
    next
      assume "\<exists>v. (items (storage w) storageKey = Some (Json_text v) \<or>
          items (storage w) backupKey = Some (Json_text v)) \<and>
         get_prop v ''mediaItems'' = Inr (mediaItems (snd (init w)))"
      then obtain v where v: "items (storage w) storageKey = Some (Json_text v) \<or>
          items (storage w) backupKey = Some (Json_text v)"
          "get_prop v ''mediaItems'' = Inr (mediaItems (snd (init w)))"
        by blast
      from v(1) h have "list_or_nothing v" by blast
      with v(2) have "is_array (mediaItems (snd (init w))) \<or> \<not> truthy (mediaItems (snd (init w)))"
        by (simp add: list_or_nothing_def)
      moreover have "\<not> truthy (mediaItems (snd (init w))) \<Longrightarrow> mediaItems (snd (init w)) = JArr []"
        by (simp add: init_eq split: sum.splits if_splits)
      ultimately show ?thesis by auto
    qed
  qed
  from a b c d show ?thesis by blast
qed

text \<open>The theorem on a storage whose primary slot does not parse, over a backup slot
  that holds the snapshot of a catalog of one record.\<close>

theorem init_falls_back_to_backup_witness:
  "primary_fails (storage corrupt_primary_world) \<and>
   \<not> getItem_throws (storage corrupt_primary_world) backupKey \<and>
   items (storage corrupt_primary_world) storageKey = Some Malformed_text \<and>
   items (storage corrupt_primary_world) backupKey
     = Some (Json_text (json_norm (snapshot (JArr [cat_record]) sample_env))) \<and>
   get_prop (json_norm (snapshot (JArr [cat_record]) sample_env)) ''mediaItems''
     = Inr (JArr [json_norm cat_record]) \<and>
   list_or_nothing (json_norm (snapshot (JArr [cat_record]) sample_env)) \<and>
   fst (init corrupt_primary_world) = Inr () \<and>
   mediaItems (snd (init corrupt_primary_world)) = JArr [json_norm cat_record] \<and>
   is_array (mediaItems (snd (init corrupt_primary_world)))"
proof -
  have a: "primary_fails (storage corrupt_primary_world)"
    by (simp add: primary_fails_def corrupt_primary_world_def)
  have b: "\<not> getItem_throws (storage corrupt_primary_world) backupKey"
    by (simp add: corrupt_primary_world_def backup_only_storage_def empty_storage_def)
  have p: "items (storage corrupt_primary_world) storageKey = Some Malformed_text"
    by (simp add: corrupt_primary_world_def)
  have c: "items (storage corrupt_primary_world) backupKey
     = Some (Json_text (json_norm (snapshot (JArr [cat_record]) sample_env)))"
    by (simp add: corrupt_primary_world_def backup_only_storage_def snapshot_def
        storageKey_def backupKey_def)
  have d: "get_prop (json_norm (snapshot (JArr [cat_record]) sample_env)) ''mediaItems''
     = Inr (JArr [json_norm cat_record])"
    by (simp add: snapshot_def)
  have l: "list_or_nothing (json_norm (snapshot (JArr [cat_record]) sample_env))"
    by (simp add: list_or_nothing_def d)
  show ?thesis
    using init_falls_back_to_backup[of corrupt_primary_world
        "json_norm (snapshot (JArr [cat_record]) sample_env)" "[json_norm cat_record]"] a b c d l p
    by simp
qed

section \<open>Round trip through the storage\<close>

lemma json_norm_safe: "json_safe v \<Longrightarrow> json_norm v = v"
proof (induction v)
  case (JArr xs)
  then have "map json_norm xs = xs"
    by (intro map_idI) (simp add: list_all_iff)
  then show ?case by simp
next
  case (JObj ps)
  have "filter (\<lambda>p. snd p \<noteq> JUndefined) ps = ps"
    using JObj.prems by (auto simp add: list_all_iff filter_id_conv)
  moreover have "map (\<lambda>p. (fst p, json_norm (snd p))) ps = ps"
  proof (intro map_idI)
    fix p assume p: "p \<in> set ps"
    then have "json_safe (snd p)" using JObj.prems by (simp add: list_all_iff)
    moreover have "snd p \<in> Basic_BNFs.snds p" by (cases p) simp
    ultimately have "json_norm (snd p) = snd p" using JObj.IH p by blast
    then show "(fst p, json_norm (snd p)) = p" by simp
  qed
  ultimately show ?case by simp
qed simp_all

lemma map_of_filter_distinct:
  "distinct (map fst ps) \<Longrightarrow>
   map_of (filter P ps) k =
     (case map_of ps k of None \<Rightarrow> None | Some v \<Rightarrow> if P (k, v) then Some v else None)"
proof (induction ps)
  case Nil
  show ?case by simp
next
  case (Cons p ps)
  then have IH: "map_of (filter P ps) k =
     (case map_of ps k of None \<Rightarrow> None | Some v \<Rightarrow> if P (k, v) then Some v else None)"
    by simp
  have fresh: "fst p = k \<Longrightarrow> map_of ps k = None"
    using Cons.prems by (simp add: map_of_eq_None_iff)
  show ?case
    using fresh by (cases p) (auto simp add: IH split: option.splits)
qed

lemma json_norm_record:
  assumes "is_record x"
  shows "json_norm x = JObj (filter (\<lambda>p. snd p \<noteq> JUndefined) (own_props x))"
proof -
  from assms obtain ps where x: "x = JObj ps" by (cases x) simp_all
  have "map (\<lambda>p. (fst p, json_norm (snd p))) (filter (\<lambda>p. snd p \<noteq> JUndefined) ps)
          = filter (\<lambda>p. snd p \<noteq> JUndefined) ps"
    using assms unfolding x
    by (intro map_idI) (auto simp add: list_all_iff json_norm_safe)
  then show ?thesis by (simp add: x)
qed

lemma get_prop_json_norm_record:
  assumes "is_record x"
  shows "get_prop (json_norm x) f = get_prop x f"
proof -
  from assms obtain ps where x: "x = JObj ps" by (cases x) simp_all
  have d: "distinct (map fst ps)" using assms by (simp add: x)
  have n: "json_norm (JObj ps) = JObj (filter (\<lambda>p. snd p \<noteq> JUndefined) ps)"
    using json_norm_record[OF assms] unfolding x by (simp only: own_props.simps)
  show ?thesis
    unfolding x n by (simp add: map_of_filter_distinct[OF d] split: option.splits)
qed

text \<open>What \<open>init\<close> finds after a save that succeeded.\<close>

lemma init_after_save:
  assumes "\<not> write_fails s (snapshot (JArr xs) e)"
    and "\<not> (getItem_throws s storageKey \<and> getItem_throws s backupKey)"
  shows "mediaItems (snd (init (w\<lparr>storage := snd (saveToStorage (snapshot (JArr xs) e) s)\<rparr>)))
           = JArr (map json_norm xs)"
  using assms
  by (auto simp add: init_eq loadFromStorage_fst primary_fails_def saveToStorage_eq write_fails_def
      Let_def snapshot_def storageKey_def backupKey_def)

text \<open>
  C3: for every catalog of records, if the persistence write of its snapshot succeeds and
  at least one of the two slots can then be read, \<open>init\<close> loads a catalog with the same
  number of records, in the same order, each reading the same value on every field. A
  field that holds \<open>undefined\<close> (an absent \<open>fileSize\<close>) is not serialised and reads
  \<open>undefined\<close> again after loading; when no field holds \<open>undefined\<close> the loaded
  catalog is identical to the one saved.
\<close>

theorem persist_then_init_round_trip:
  assumes "list_all is_record xs"
    and "\<not> write_fails s (snapshot (JArr xs) e)"
    and "\<not> (getItem_throws s storageKey \<and> getItem_throws s backupKey)"
  shows "\<exists>ys. mediaItems (snd (init (w\<lparr>storage := snd (saveToStorage (snapshot (JArr xs) e) s)\<rparr>)))
                = JArr ys \<and>
              length ys = length xs \<and>
              (\<forall>j<length xs. \<forall>f. get_prop (ys ! j) f = get_prop (xs ! j) f) \<and>
              (list_all json_safe xs \<longrightarrow> ys = xs)"
proof -
  let ?ys = "map json_norm xs"
  have m: "mediaItems (snd (init (w\<lparr>storage := snd (saveToStorage (snapshot (JArr xs) e) s)\<rparr>)))
             = JArr ?ys"
    using assms(2,3) by (rule init_after_save)
  have r: "\<forall>j<length xs. \<forall>f. get_prop (?ys ! j) f = get_prop (xs ! j) f"
    using assms(1) by (simp add: list_all_length get_prop_json_norm_record)
  have e: "list_all json_safe xs \<longrightarrow> ?ys = xs"
    by (auto simp add: list_all_iff json_norm_safe intro: map_idI)
  show ?thesis using m r e by simp
qed

lemma field_cat_photo:
  "field cat_photo ''fileName'' = JStr ''a.png''"
  "field cat_photo ''description'' = JStr ''cat photo''"
  "field cat_photo ''fileType'' = JStr ''image''"
  "field cat_photo ''fileSize'' = JNum 2048"
  by (simp_all add: field_def cat_photo_def)

lemma field_voice_memo:
  "field voice_memo ''fileName'' = JStr ''memo.mp3''"
  "field voice_memo ''description'' = JStr ''voice memo''"
  "field voice_memo ''fileType'' = JStr ''audio''"
  "field voice_memo ''fileSize'' = JUndefined"
  by (simp_all add: field_def voice_memo_def)

text \<open>The theorem on a catalog of two records, the second without a file size, saved to
  an empty storage.\<close>

theorem persist_then_init_round_trip_witness:
  "list_all is_record [cat_record, memo_record] \<and>
   \<not> write_fails empty_storage (snapshot (JArr [cat_record, memo_record]) sample_env) \<and>
   \<not> (getItem_throws empty_storage storageKey \<and> getItem_throws empty_storage backupKey) \<and>
   (\<exists>ys. mediaItems (snd (init (fresh_world\<lparr>storage :=
              snd (saveToStorage (snapshot (JArr [cat_record, memo_record]) sample_env)
                     empty_storage)\<rparr>))) = JArr ys \<and>
         length ys = 2 \<and>
         get_prop (ys ! 0) ''fileSize'' = Inr (JNum 2048) \<and>
         get_prop (ys ! 1) ''fileSize'' = Inr JUndefined \<and>
         get_prop (ys ! 1) ''description'' = Inr (JStr ''voice memo''))"
proof -
  have r: "list_all is_record [cat_record, memo_record]"
    by (simp add: cat_record_def memo_record_def new_mediaItem_def field_cat_photo field_voice_memo)
  have w: "\<not> write_fails empty_storage (snapshot (JArr [cat_record, memo_record]) sample_env)"
    by (simp add: write_fails_def empty_storage_def)
  have g: "\<not> (getItem_throws empty_storage storageKey \<and> getItem_throws empty_storage backupKey)"
    by (simp add: empty_storage_def)
  have old: "get_prop cat_record ''fileSize'' = Inr (JNum 2048)"
    "get_prop memo_record ''fileSize'' = Inr JUndefined"
    "get_prop memo_record ''description'' = Inr (JStr ''voice memo'')"
    by (simp_all add: cat_record_def memo_record_def new_mediaItem_def field_cat_photo field_voice_memo)
  from persist_then_init_round_trip[OF r w g, of fresh_world]
  obtain ys where ys:
    "mediaItems (snd (init (fresh_world\<lparr>storage :=
              snd (saveToStorage (snapshot (JArr [cat_record, memo_record]) sample_env)
                     empty_storage)\<rparr>))) = JArr ys"
    "length ys = 2"
    "\<forall>j<2. \<forall>f. get_prop (ys ! j) f = get_prop ([cat_record, memo_record] ! j) f"
    by auto
  have "get_prop (ys ! 0) ''fileSize'' = Inr (JNum 2048)"
    "get_prop (ys ! 1) ''fileSize'' = Inr JUndefined"
    "get_prop (ys ! 1) ''description'' = Inr (JStr ''voice memo'')"
    using ys(3) old by simp_all
  with ys(1,2) r w g show ?thesis by blast
qed

section \<open>Validation in the handlers\<close>

lemma handleUpload_too_long:
  "500 < length (trim d) \<Longrightarrow>
   handleUpload file d e w =
     (if isLoading w then []
      else case file of
             None \<Rightarrow> [Error_message ''Please select a file to upload.'']
           | Some f \<Rightarrow>
               if isValidFileType f
               then [Error_message ''Description must be 500 characters or less.'']
               else [Error_message ''Invalid file type. Please select an image, video, or audio file.''],
      w)"
  by (auto simp add: handleUpload_def Let_def split: option.splits)

lemma handleSaveEdit_too_long:
  "500 < length (trim d) \<Longrightarrow>
   handleSaveEdit d e w =
     (case currentEditId w of
        None \<Rightarrow> []
      | Some editId \<Rightarrow>
          if editId = [] then []
          else [Error_message ''Description must be 500 characters or less.''],
      w)"
  by (auto simp add: handleSaveEdit_def Let_def split: option.splits)

lemma renderGallery_world:
  "mediaItems (snd (renderGallery w)) = mediaItems w \<and>
   storage (snd (renderGallery w)) = storage w \<and>
   (\<exists>rest. api_log (snd (renderGallery w)) = api_log w @ rest)"
  by (simp add: renderGallery_def getMedia_def Let_def split: jsval.splits)

lemma handleUpload_accepted:
  assumes "\<not> isLoading w" and "isValidFileType f" and "trim d \<noteq> []" and "length (trim d) \<le> 500"
  shows "handleUpload (Some f) d e w =
     (case createMedia [(''fileName'', JStr (name f)),
                        (''description'', JStr (trim d)),
                        (''fileType'', JStr (getFileType (type f))),
                        (''fileSize'', JNum (int (size' f)))] e (setLoadingState True w) of
        (Inl error, w1) \<Rightarrow>
          ([Error_message ''Upload failed. Please try again.''], setLoadingState False w1)
      | (Inr newItem, w1) \<Rightarrow>
          (fst (renderGallery w1) @ [Success_message (''Successfully uploaded '' @ name f @ ''!'')],
           setLoadingState False (snd (renderGallery w1))))"
  using assms by (simp add: handleUpload_def Let_def split: prod.splits sum.splits)

lemma handleUpload_accepted_world:
  assumes "\<not> isLoading w" and "isValidFileType f" and "trim d \<noteq> []" and "length (trim d) \<le> 500"
    and "mediaItems w = JArr xs"
  shows "(\<exists>rest. api_log (snd (handleUpload (Some f) d e w)) = api_log w @ ''createMedia'' # rest) \<and>
         mediaItems (snd (handleUpload (Some f) d e w)) =
           JArr (xs @ [new_mediaItem [(''fileName'', JStr (name f)),
                                      (''description'', JStr (trim d)),
                                      (''fileType'', JStr (getFileType (type f))),
                                      (''fileSize'', JNum (int (size' f)))] e])"
proof -
  let ?md = "[(''fileName'', JStr (name f)), (''description'', JStr (trim d)),
              (''fileType'', JStr (getFileType (type f))), (''fileSize'', JNum (int (size' f)))]"
  let ?w0 = "setLoadingState True w"
  have m0: "mediaItems ?w0 = JArr xs" using assms(5) by (simp add: setLoadingState_def)
  obtain r w1 where c: "createMedia ?md e ?w0 = (r, w1)" by (cases "createMedia ?md e ?w0")
  have w1: "mediaItems w1 = JArr (xs @ [new_mediaItem ?md e])"
           "api_log w1 = api_log w @ [''createMedia'']"
    using c createMedia_eq[OF m0, of ?md e] by (auto simp add: Let_def setLoadingState_def)
  from renderGallery_world[of w1] obtain rest where
    g: "mediaItems (snd (renderGallery w1)) = mediaItems w1"
       "api_log (snd (renderGallery w1)) = api_log w1 @ rest"
    by blast
  show ?thesis
    using c w1 g
    by (cases r) (simp_all add: handleUpload_accepted[OF assms(1-4)] setLoadingState_def)
qed

lemma handleSaveEdit_accepted_world:
  assumes "currentEditId w = Some editId" and "editId \<noteq> []"
    and "trim d \<noteq> []" and "length (trim d) \<le> 500"
    and "mediaItems w = JArr xs" and "list_all is_object xs" and "list_ex (has_id editId) xs"
  shows "(\<exists>rest. api_log (snd (handleSaveEdit d e w)) = api_log w @ ''updateMedia'' # rest) \<and>
         mediaItems (snd (handleSaveEdit d e w)) =
           JArr (xs[first_index editId xs :=
                      JObj (spread (own_props (xs ! first_index editId xs))
                              [(''description'', JStr (trim d))])])"
proof -
  let ?u = "[(''description'', JStr (trim d))]"
  obtain r w1 where c: "updateMedia editId ?u e w = (r, w1)" by (cases "updateMedia editId ?u e w")
  have w1: "mediaItems w1 = JArr (xs[first_index editId xs :=
                      JObj (spread (own_props (xs ! first_index editId xs)) ?u)])"
           "api_log w1 = api_log w @ [''updateMedia'']"
    using c assms(7) by (auto simp add: updateMedia_eq[OF assms(5,6)] Let_def)
  let ?w2 = "closeEditModal w1"
  have w2: "mediaItems ?w2 = mediaItems w1" "api_log ?w2 = api_log w1"
    by (simp_all add: closeEditModal_def)
  from renderGallery_world[of ?w2] obtain rest where
    g: "mediaItems (snd (renderGallery ?w2)) = mediaItems ?w2"
       "api_log (snd (renderGallery ?w2)) = api_log ?w2 @ rest"
    by blast
  show ?thesis
    using c w1 w2 g assms(1-4)
    by (cases r) (simp_all add: handleSaveEdit_def Let_def case_prod_beta)
qed

lemma api_log_createMedia:
  "api_log (snd (createMedia md e w)) = api_log w @ [''createMedia'']"
  by (simp add: createMedia_def Let_def save_case split: jsval.splits)

lemma api_log_updateMedia:
  "api_log (snd (updateMedia i u e w)) = api_log w @ [''updateMedia'']"
  by (simp add: updateMedia_def Let_def save_case split: jsval.splits sum.splits option.splits)

lemma handleUpload_accepted_log:
  assumes "\<not> isLoading w" and "isValidFileType f" and "trim d \<noteq> []" and "length (trim d) \<le> 500"
  shows "\<exists>rest. api_log (snd (handleUpload (Some f) d e w)) = api_log w @ ''createMedia'' # rest"
proof -
  let ?md = "[(''fileName'', JStr (name f)), (''description'', JStr (trim d)),
              (''fileType'', JStr (getFileType (type f))), (''fileSize'', JNum (int (size' f)))]"
  let ?w0 = "setLoadingState True w"
  obtain r w1 where c: "createMedia ?md e ?w0 = (r, w1)" by (cases "createMedia ?md e ?w0")
  have "api_log w1 = api_log ?w0 @ [''createMedia'']"
    using api_log_createMedia[of ?md e ?w0] c by simp
  then have w1: "api_log w1 = api_log w @ [''createMedia'']"
    by (simp add: setLoadingState_def)
  from renderGallery_world[of w1] obtain rest where
    g: "api_log (snd (renderGallery w1)) = api_log w1 @ rest"
    by blast
  show ?thesis
    using c w1 g
    by (cases r) (simp_all add: handleUpload_accepted[OF assms] setLoadingState_def)
qed

lemma handleSaveEdit_accepted_log:
  assumes "currentEditId w = Some editId" and "editId \<noteq> []"
    and "trim d \<noteq> []" and "length (trim d) \<le> 500"
  shows "\<exists>rest. api_log (snd (handleSaveEdit d e w)) = api_log w @ ''updateMedia'' # rest"
proof -
  let ?u = "[(''description'', JStr (trim d))]"
  obtain r w1 where c: "updateMedia editId ?u e w = (r, w1)" by (cases "updateMedia editId ?u e w")
  have w1: "api_log w1 = api_log w @ [''updateMedia'']"
    using api_log_updateMedia[of editId ?u e w] c by simp
  let ?w2 = "closeEditModal w1"
  have w2: "api_log ?w2 = api_log w1"
    by (simp add: closeEditModal_def)
  from renderGallery_world[of ?w2] obtain rest where
    g: "api_log (snd (renderGallery ?w2)) = api_log ?w2 @ rest"
    by blast
  show ?thesis
    using c w1 w2 g assms
    by (cases r) (simp_all add: handleSaveEdit_def Let_def case_prod_beta)
qed

text \<open>
  C7: a description longer than 500 characters after trimming is rejected before any
  call of the store: \<open>handleUpload\<close> and \<open>handleSaveEdit\<close> leave the world as it
  was (the catalog, the storage and the log of store methods entered), and, when the
  checks before the length check pass, show
  \<open>'Description must be 500 characters or less.'\<close>. A description of exactly 500
  characters after trimming is accepted: with a valid file selected and no upload in
  progress, \<open>handleUpload\<close> enters \<open>createMedia\<close>, and a catalog that is an array
  gains a record with the trimmed description; with a record open for editing,
  \<open>handleSaveEdit\<close> enters \<open>updateMedia\<close>, and if the catalog holds that record it
  then reads the trimmed description.
\<close>

theorem description_length_boundary:
  "(500 < length (trim d) \<longrightarrow>
      snd (handleUpload file d e w) = w \<and> snd (handleSaveEdit d e w) = w) \<and>
   (500 < length (trim d) \<and> \<not> isLoading w \<and> isValidFileType f \<longrightarrow>
      fst (handleUpload (Some f) d e w) =
        [Error_message ''Description must be 500 characters or less.'']) \<and>
   (500 < length (trim d) \<and> currentEditId w = Some editId \<and> editId \<noteq> [] \<longrightarrow>
      fst (handleSaveEdit d e w) =
        [Error_message ''Description must be 500 characters or less.'']) \<and>
   (length (trim d) = 500 \<and> \<not> isLoading w \<and> isValidFileType f \<longrightarrow>
      (\<exists>rest. api_log (snd (handleUpload (Some f) d e w)) = api_log w @ ''createMedia'' # rest)) \<and>
   (length (trim d) = 500 \<and> \<not> isLoading w \<and> isValidFileType f \<and> mediaItems w = JArr xs \<longrightarrow>
      mediaItems (snd (handleUpload (Some f) d e w)) =
        JArr (xs @ [new_mediaItem [(''fileName'', JStr (name f)),
                                   (''description'', JStr (trim d)),
                                   (''fileType'', JStr (getFileType (type f))),
                                   (''fileSize'', JNum (int (size' f)))] e])) \<and>
   (length (trim d) = 500 \<and> currentEditId w = Some editId \<and> editId \<noteq> [] \<longrightarrow>
      (\<exists>rest. api_log (snd (handleSaveEdit d e w)) = api_log w @ ''updateMedia'' # rest)) \<and>
   (length (trim d) = 500 \<and> currentEditId w = Some editId \<and> editId \<noteq> [] \<and>
    mediaItems w = JArr xs \<and> list_all is_object xs \<and> list_ex (has_id editId) xs \<longrightarrow>
      (\<exists>ys. mediaItems (snd (handleSaveEdit d e w)) = JArr ys \<and>
            get_prop (ys ! first_index editId xs) ''description'' = Inr (JStr (trim d))))"
proof -
  have rej: "500 < length (trim d) \<longrightarrow>
      snd (handleUpload file d e w) = w \<and> snd (handleSaveEdit d e w) = w"
    by (simp add: handleUpload_too_long handleSaveEdit_too_long)
  have up: "500 < length (trim d) \<and> \<not> isLoading w \<and> isValidFileType f \<longrightarrow>
      fst (handleUpload (Some f) d e w) =
        [Error_message ''Description must be 500 characters or less.'']"
    by (simp add: handleUpload_too_long)
  have ed: "500 < length (trim d) \<and> currentEditId w = Some editId \<and> editId \<noteq> [] \<longrightarrow>
      fst (handleSaveEdit d e w) =
        [Error_message ''Description must be 500 characters or less.'']"
    by (simp add: handleSaveEdit_too_long)
  have ne: "length (trim d) = 500 \<Longrightarrow> trim d \<noteq> []" by auto
  have acc_log: "length (trim d) = 500 \<and> \<not> isLoading w \<and> isValidFileType f \<longrightarrow>
      (\<exists>rest. api_log (snd (handleUpload (Some f) d e w)) = api_log w @ ''createMedia'' # rest)"
    using handleUpload_accepted_log[of w f d e] ne by simp
  have acc: "length (trim d) = 500 \<and> \<not> isLoading w \<and> isValidFileType f \<and> mediaItems w = JArr xs \<longrightarrow>
      mediaItems (snd (handleUpload (Some f) d e w)) =
        JArr (xs @ [new_mediaItem [(''fileName'', JStr (name f)),
                                   (''description'', JStr (trim d)),
                                   (''fileType'', JStr (getFileType (type f))),
                                   (''fileSize'', JNum (int (size' f)))] e])"
    using handleUpload_accepted_world[of w f d xs e] ne by simp
  have edit_log: "length (trim d) = 500 \<and> currentEditId w = Some editId \<and> editId \<noteq> [] \<longrightarrow>
      (\<exists>rest. api_log (snd (handleSaveEdit d e w)) = api_log w @ ''updateMedia'' # rest)"
    using handleSaveEdit_accepted_log[of w editId d e] ne by simp
  have acc_edit: "length (trim d) = 500 \<and> currentEditId w = Some editId \<and> editId \<noteq> [] \<and>
    mediaItems w = JArr xs \<and> list_all is_object xs \<and> list_ex (has_id editId) xs \<longrightarrow>
      (\<exists>ys. mediaItems (snd (handleSaveEdit d e w)) = JArr ys \<and>
            get_prop (ys ! first_index editId xs) ''description'' = Inr (JStr (trim d)))"
  proof (intro impI)
    assume h: "length (trim d) = 500 \<and> currentEditId w = Some editId \<and> editId \<noteq> [] \<and>
      mediaItems w = JArr xs \<and> list_all is_object xs \<and> list_ex (has_id editId) xs"
    let ?k = "first_index editId xs"
    have k: "?k < length xs" using h by (simp add: first_index_less)
    have dk: "distinct (map fst (own_props (xs ! ?k)))"
      using h k by (simp add: is_object_nth)
    have rd: "get_prop (JObj (spread (own_props (xs ! ?k)) [(''description'', JStr (trim d))]))
                ''description'' = Inr (JStr (trim d))"
      using dk by (simp add: field_def[symmetric] field_spread)
    from h ne handleSaveEdit_accepted_world[of w editId d xs e]
    have "mediaItems (snd (handleSaveEdit d e w)) =
           JArr (xs[?k := JObj (spread (own_props (xs ! ?k)) [(''description'', JStr (trim d))])])"
      by simp
    then show "\<exists>ys. mediaItems (snd (handleSaveEdit d e w)) = JArr ys \<and>
            get_prop (ys ! ?k) ''description'' = Inr (JStr (trim d))"
      using k rd by simp
  qed
  from rej up ed acc_log acc edit_log acc_edit show ?thesis by blast
qed

text \<open>The theorem on 501 letters, which both handlers reject, and on a space followed
  by 500 letters, which both accept after trimming.\<close>

lemma trim_padded_500: "trim padded_500 = replicate 500 (CHR ''a'')"
  by (simp add: trim_def padded_500_def is_space_def)

lemma trim_letters_501: "trim letters_501 = replicate 501 (CHR ''a'')"
  by (simp add: trim_def letters_501_def is_space_def)

theorem description_length_boundary_witness:
  "500 < length (trim letters_501) \<and> length (trim padded_500) = 500 \<and>
   \<not> isLoading cat_world \<and> isValidFileType photo_file \<and>
   mediaItems cat_world = JArr [cat_record] \<and>
   currentEditId editing_world = Some cat_id \<and> cat_id \<noteq> [] \<and>
   mediaItems editing_world = JArr [cat_record] \<and> list_all is_object [cat_record] \<and>
   list_ex (has_id cat_id) [cat_record] \<and>
   handleUpload (Some photo_file) letters_501 later_env cat_world =
     ([Error_message ''Description must be 500 characters or less.''], cat_world) \<and>
   handleSaveEdit letters_501 later_env editing_world =
     ([Error_message ''Description must be 500 characters or less.''], editing_world) \<and>
   mediaItems (snd (handleUpload (Some photo_file) padded_500 later_env cat_world)) =
     JArr [cat_record,
           new_mediaItem [(''fileName'', JStr ''a.png''),
                          (''description'', JStr (replicate 500 (CHR ''a''))),
                          (''fileType'', JStr ''image''),
                          (''fileSize'', JNum 2048)] later_env] \<and>
   (\<exists>ys. mediaItems (snd (handleSaveEdit padded_500 later_env editing_world)) = JArr ys \<and>
         get_prop (ys ! 0) ''description'' = Inr (JStr (replicate 500 (CHR ''a''))))"
proof -
  have l: "500 < length (trim letters_501)" by (simp add: trim_letters_501)
  have p: "length (trim padded_500) = 500" by (simp add: trim_padded_500)
  have nl: "\<not> isLoading cat_world" by (simp add: cat_world_def fresh_world_def)
  have v: "isValidFileType photo_file"
    by (simp add: isValidFileType_def photo_file_def validTypes_def)
  have m: "mediaItems cat_world = JArr [cat_record]" by (simp add: cat_world_def)
  have c: "currentEditId editing_world = Some cat_id" by (simp add: editing_world_def)
  have ci: "cat_id \<noteq> []"
    by (simp add: cat_id_def generateId_def sample_env_def)
  have me: "mediaItems editing_world = JArr [cat_record]"
    by (simp add: editing_world_def cat_world_def)
  have o: "list_all is_object [cat_record]"
    by (simp add: cat_record_def is_object_new_mediaItem)
  have h: "list_ex (has_id cat_id) [cat_record]"
    by (simp add: cat_id_def cat_record_def has_id_new_mediaItem)
  have fi: "first_index cat_id [cat_record] = 0"
    using h by (simp add: first_index_def)
  have ft: "getFileType (type photo_file) = ''image''" "name photo_file = ''a.png''"
    "int (size' photo_file) = 2048"
    by (simp_all add: getFileType_def startsWith_def photo_file_def)
  have 1: "handleUpload (Some photo_file) letters_501 later_env cat_world =
     ([Error_message ''Description must be 500 characters or less.''], cat_world)"
    using description_length_boundary[of letters_501 "Some photo_file" later_env cat_world photo_file]
      l nl v
    by (simp add: prod_eq_iff)
  have 2: "handleSaveEdit letters_501 later_env editing_world =
     ([Error_message ''Description must be 500 characters or less.''], editing_world)"
    using description_length_boundary[of letters_501 "Some photo_file" later_env editing_world photo_file cat_id]
      l c ci
    by (simp add: prod_eq_iff)
  have 3: "mediaItems (snd (handleUpload (Some photo_file) padded_500 later_env cat_world)) =
     JArr [cat_record,
           new_mediaItem [(''fileName'', JStr ''a.png''),
                          (''description'', JStr (replicate 500 (CHR ''a''))),
                          (''fileType'', JStr ''image''),
                          (''fileSize'', JNum 2048)] later_env]"
    using description_length_boundary[of padded_500 "Some photo_file" later_env cat_world photo_file
        cat_id "[cat_record]"] p nl v m
    by (simp add: ft trim_padded_500)
  have 4: "\<exists>ys. mediaItems (snd (handleSaveEdit padded_500 later_env editing_world)) = JArr ys \<and>
         get_prop (ys ! 0) ''description'' = Inr (JStr (replicate 500 (CHR ''a'')))"
    using description_length_boundary[of padded_500 "Some photo_file" later_env editing_world photo_file
        cat_id "[cat_record]"] p c ci me o h
    by (simp add: fi trim_padded_500)
  from l p nl v m c ci me o h 1 2 3 4 show ?thesis by blast
qed

section \<open>Identifiers of new records\<close>

text \<open>
  The base-36 digits determine the number, so two generated ids whose clock parts have
  the same number of digits (eight, for every reading between 1972 and 2059) are equal
  only if both the clock reading and the random digits are.
\<close>

lemma digit36_inj: "a < 36 \<Longrightarrow> b < 36 \<Longrightarrow> digit36 a = digit36 b \<Longrightarrow> a = b"
proof -
  assume a: "a < 36" and b: "b < 36" and e: "digit36 a = digit36 b"
  have d: "distinct ''0123456789abcdefghijklmnopqrstuvwxyz''" by simp
  have l: "length ''0123456789abcdefghijklmnopqrstuvwxyz'' = 36" by simp
  from e show "a = b"
    unfolding digit36_def using a b nth_eq_iff_index_eq[OF d, of a b] l by simp
qed

lemma toString36_nonempty: "toString36 n \<noteq> []"
  by (subst toString36.simps) simp

lemma toString36_inj: "toString36 m = toString36 n \<Longrightarrow> m = n"
proof (induction m arbitrary: n rule: toString36.induct)
  case (1 m)
  show ?case
  proof (cases "m < 36")
    case True
    then have m: "toString36 m = [digit36 m]" by (subst toString36.simps) simp
    show ?thesis
    proof (cases "n < 36")
      case n: True
      then have "toString36 n = [digit36 n]" by (subst toString36.simps) simp
      with m "1.prems" have "digit36 m = digit36 n" by simp
      with True n show ?thesis by (rule digit36_inj)
    next
      case False
      then have "toString36 n = toString36 (n div 36) @ [digit36 (n mod 36)]"
        by (subst toString36.simps) simp
      with m "1.prems" toString36_nonempty[of "n div 36"] show ?thesis by simp
    qed
  next
    case False
    then have m: "toString36 m = toString36 (m div 36) @ [digit36 (m mod 36)]"
      by (subst toString36.simps) simp
    show ?thesis
    proof (cases "n < 36")
      case True
      then have "toString36 n = [digit36 n]" by (subst toString36.simps) simp
      with m "1.prems" toString36_nonempty[of "m div 36"] show ?thesis by simp
    next
      case n: False
      then have "toString36 n = toString36 (n div 36) @ [digit36 (n mod 36)]"
        by (subst toString36.simps) simp
      with m "1.prems" have e: "toString36 (m div 36) = toString36 (n div 36)"
        "digit36 (m mod 36) = digit36 (n mod 36)" by simp_all
      from e(1) have "m div 36 = n div 36" using False by (intro "1.IH") simp_all
      moreover from e(2) have "m mod 36 = n mod 36" by (intro digit36_inj) simp_all
      ultimately show ?thesis by (metis div_mult_mod_eq)
    qed
  qed
qed

lemma generateId_clock:
  assumes "length (toString36 (Date_now e1)) = length (toString36 (Date_now e2))"
    and "generateId e1 = generateId e2"
  shows "Date_now e1 = Date_now e2 \<and> random_digits e1 = random_digits e2"
proof -
  from assms have "toString36 (Date_now e1) = toString36 (Date_now e2) \<and>
     random_digits e1 = random_digits e2"
    by (simp add: generateId_def)
  then show ?thesis by (simp add: toString36_inj)
qed

text \<open>
  What \<open>createMedia\<close> does with the id it generated: on a catalog that is an array,
  the new record is appended at the end and is the value returned unless the persistence
  write throws; it carries the generated id; and if no record of the catalog had this id,
  exactly one record of the list has it afterwards. Nothing in \<open>createMedia\<close> or
  \<open>generateId\<close> compares the generated id with the ids already assigned.
\<close>

lemma createMedia_appends:
  assumes "mediaItems w = JArr xs"
  shows "fst (getMedia (snd (createMedia md e w))) = Inr (xs @ [new_mediaItem md e]) \<and>
         (fst (createMedia md e w) = Inr (new_mediaItem md e) \<or>
          fst (createMedia md e w) = Inl Storage_quota_exceeded_or_unavailable) \<and>
         has_id (generateId e) (new_mediaItem md e) \<and>
         (\<not> list_ex (has_id (generateId e)) xs \<longrightarrow>
            length (filter (has_id (generateId e)) (xs @ [new_mediaItem md e])) = 1)"
proof -
  have m: "mediaItems (snd (createMedia md e w)) = JArr (xs @ [new_mediaItem md e])"
    by (simp add: createMedia_eq[OF assms] Let_def)
  have g: "fst (getMedia (snd (createMedia md e w))) = Inr (xs @ [new_mediaItem md e])"
    using m by (rule getMedia_array)
  have r: "fst (createMedia md e w) = Inr (new_mediaItem md e) \<or>
          fst (createMedia md e w) = Inl Storage_quota_exceeded_or_unavailable"
    by (simp add: createMedia_eq[OF assms] Let_def)
  have h: "has_id (generateId e) (new_mediaItem md e)"
    by (simp add: has_id_new_mediaItem)
  have u: "\<not> list_ex (has_id (generateId e)) xs \<longrightarrow>
            length (filter (has_id (generateId e)) (xs @ [new_mediaItem md e])) = 1"
    using h by (auto simp add: list_ex_iff filter_empty_conv)
  from g r h u show ?thesis by blast
qed

text \<open>
  C8 is not met by the code. \<open>generateId\<close>, documented as returning a unique
  identifier, concatenates the clock reading in base 36 with the digits of a random draw.
  Two \<open>createMedia\<close> calls that see the same clock reading and the same draw both
  return normally, and the list then holds two different records with one id.
\<close>

theorem createMedia_same_clock_and_draw_same_id:
  "fst (createMedia cat_photo sample_env fresh_world) = Inr cat_record \<and>
   fst (createMedia voice_memo sample_env (snd (createMedia cat_photo sample_env fresh_world)))
     = Inr (new_mediaItem voice_memo sample_env) \<and>
   fst (getMedia (snd (createMedia voice_memo sample_env
                         (snd (createMedia cat_photo sample_env fresh_world)))))
     = Inr [cat_record, new_mediaItem voice_memo sample_env] \<and>
   get_prop cat_record ''id'' = Inr (JStr ''mhhwudq8k3x9q2m1'') \<and>
   get_prop (new_mediaItem voice_memo sample_env) ''id'' = Inr (JStr ''mhhwudq8k3x9q2m1'') \<and>
   cat_record \<noteq> new_mediaItem voice_memo sample_env \<and>
   length (filter (has_id ''mhhwudq8k3x9q2m1'') [cat_record, new_mediaItem voice_memo sample_env]) = 2"
proof -
  have m0: "mediaItems fresh_world = JArr []" by (simp add: fresh_world_def)
  have nf: "\<not> write_fails (storage fresh_world) d" for d
    by (simp add: write_fails_def fresh_world_def empty_storage_def)
  let ?w1 = "snd (createMedia cat_photo sample_env fresh_world)"
  have r1: "fst (createMedia cat_photo sample_env fresh_world) = Inr cat_record"
    by (simp add: createMedia_eq[OF m0] Let_def nf cat_record_def)
  have m1: "mediaItems ?w1 = JArr [cat_record]"
    by (simp add: createMedia_eq[OF m0] Let_def cat_record_def)
  have st: "setItem_throws (storage ?w1) = setItem_throws (storage fresh_world)"
    by (simp add: createMedia_eq[OF m0] Let_def snd_saveToStorage_throws)
  have nf1: "\<not> write_fails (storage ?w1) d" for d
    unfolding write_fails_def st by (simp add: fresh_world_def empty_storage_def)
  let ?w2 = "snd (createMedia voice_memo sample_env ?w1)"
  have r2: "fst (createMedia voice_memo sample_env ?w1) = Inr (new_mediaItem voice_memo sample_env)"
    by (simp add: createMedia_eq[OF m1] Let_def nf1)
  have m2: "mediaItems ?w2 = JArr [cat_record, new_mediaItem voice_memo sample_env]"
    by (simp add: createMedia_eq[OF m1] Let_def)
  have g: "fst (getMedia ?w2) = Inr [cat_record, new_mediaItem voice_memo sample_env]"
    using m2 by (rule getMedia_array)
  have i1: "get_prop cat_record ''id'' = Inr (JStr ''mhhwudq8k3x9q2m1'')"
    by (simp add: cat_record_def new_mediaItem_def generateId_sample_env)
  have i2: "get_prop (new_mediaItem voice_memo sample_env) ''id'' = Inr (JStr ''mhhwudq8k3x9q2m1'')"
    by (simp add: new_mediaItem_def generateId_sample_env)
  have ne: "cat_record \<noteq> new_mediaItem voice_memo sample_env"
    by (simp add: cat_record_def new_mediaItem_def field_cat_photo field_voice_memo)
  have c: "length (filter (has_id ''mhhwudq8k3x9q2m1'') [cat_record, new_mediaItem voice_memo sample_env]) = 2"
    by (simp add: has_id_def i1 i2)
  from r1 r2 g i1 i2 ne c show ?thesis by blast
qed

end
